theory Spec2Isabelle
  imports Complex_Main "HOL-Library.AList"
begin

section \<open>Suspicion engine: the two Redis scripts\<close>

text \<open>
  The scripts \<open>scripts.increment\<close> and \<open>scripts.flushExpired\<close> are Lua programs
  that Redis runs one at a time. A suspicion record is a Redis hash with the fields
  \<open>score\<close>, \<open>expiry\<close> and \<open>isBlocked\<close>; \<open>HGET\<close> of a field that is not there
  gives Lua \<open>false\<close>, modelled as \<open>None\<close>. The numeric fields hold the numbers the
  scripts wrote, \<open>isBlocked\<close> holds the string \<open>'true'\<close> or \<open>'false'\<close>.
  The database is an association list from keys to hashes: \<open>KEYS *\<close> lists its
  keys in the order of the list.
\<close>

record suspicion_hash =
  score :: "int option"
  expiry :: "int option"
  isBlocked :: "string option"

type_synonym redis = "(string \<times> suspicion_hash) list"

datatype lua_error = CompareNilWithNumber
  \<comment> \<open>\<open>tonumber(false) <= now\<close>: attempt to compare nil with number\<close>

definition no_fields :: suspicion_hash where
  "no_fields = \<lparr>score = None, expiry = None, isBlocked = None\<rparr>"

definition HGET :: "redis \<Rightarrow> string \<Rightarrow> (suspicion_hash \<Rightarrow> 'a option) \<Rightarrow> 'a option" where
  "HGET db key field = (case map_of db key of None \<Rightarrow> None | Some h \<Rightarrow> field h)"

definition HMSET :: "redis \<Rightarrow> string \<Rightarrow> (suspicion_hash \<Rightarrow> suspicion_hash) \<Rightarrow> redis" where
  "HMSET db key set_fields =
     AList.update key
       (set_fields (case map_of db key of None \<Rightarrow> no_fields | Some h \<Rightarrow> h)) db"

definition DEL :: "redis \<Rightarrow> string \<Rightarrow> redis" where
  "DEL db key = AList.delete key db"

definition KEYS :: "redis \<Rightarrow> string list" where
  "KEYS db = map fst db"

text \<open>
  \<open>redis.call('TIME')[1]\<close> is the server's clock in whole seconds; both scripts
  multiply it by 1000.
\<close>

definition now_ms :: "int \<Rightarrow> int" where
  "now_ms time_seconds = time_seconds * 1000"

text \<open>
  \<open>scripts.increment\<close>, with \<open>KEYS[1]\<close>, \<open>ARGV[1..3]\<close> and the server time as
  arguments. The result is the script's return value (or the Lua error that stops
  it) and the database it leaves. The script also reads \<open>isBlocked\<close> and never uses
  what it read.
\<close>

definition script_increment ::
  "redis \<Rightarrow> string \<Rightarrow> int \<Rightarrow> int \<Rightarrow> int \<Rightarrow> int \<Rightarrow> (lua_error + int) \<times> redis" where
  "script_increment db key suspicionThreshold blockDurationMs ttl time_seconds =
     (let val = HGET db key score;
          exp = HGET db key expiry;
          now = now_ms time_seconds;
          restart = (Inr 1, HMSET db key (\<lambda>h. h\<lparr>score := Some 1, expiry := Some (now + ttl),
                                                  isBlocked := Some ''false''\<rparr>))
      in case val of
           None \<Rightarrow> restart
         | Some v \<Rightarrow>
             (case exp of
                None \<Rightarrow> (Inl CompareNilWithNumber, db)
              | Some e \<Rightarrow>
                  if e \<le> now then restart
                  else
                    (let val' = v + 1 in
                     if val' \<ge> suspicionThreshold
                     then (Inr val', HMSET db key (\<lambda>h. h\<lparr>score := Some val',
                                expiry := Some (now + blockDurationMs),
                                isBlocked := Some ''true''\<rparr>))
                     else (Inr val', HMSET db key (\<lambda>h. h\<lparr>score := Some val',
                                expiry := Some (now + ttl)\<rparr>)))))"

text \<open>
  \<open>scripts.flushExpired\<close>: the loop over the keys that \<open>KEYS *\<close> returned, with
  the running database and the counter \<open>deleted\<close>. A Lua error stops the script and
  keeps the deletions made so far.
\<close>

fun flush_loop :: "string list \<Rightarrow> int \<Rightarrow> redis \<Rightarrow> nat \<Rightarrow> (lua_error + nat) \<times> redis" where
  "flush_loop [] now db deleted = (Inr deleted, db)"
| "flush_loop (key # keys) now db deleted =
     (case HGET db key expiry of
        None \<Rightarrow> (Inl CompareNilWithNumber, db)
      | Some e \<Rightarrow>
          if e \<le> now then flush_loop keys now (DEL db key) (deleted + 1)
          else flush_loop keys now db deleted)"

definition flushExpired :: "redis \<Rightarrow> int \<Rightarrow> (lua_error + nat) \<times> redis" where
  "flushExpired db time_seconds = flush_loop (KEYS db) (now_ms time_seconds) db 0"

text \<open>Operation sequences on the suspicion store, with one configured threshold.\<close>

datatype suspicion_op =
    Increment string int int int  \<comment> \<open>key, blockDurationMs, ttl, server time (s)\<close>
  | FlushExpired int              \<comment> \<open>server time (s)\<close>

fun apply_suspicion_op :: "int \<Rightarrow> redis \<Rightarrow> suspicion_op \<Rightarrow> redis" where
  "apply_suspicion_op threshold db (Increment key blockDurationMs ttl t) =
     snd (script_increment db key threshold blockDurationMs ttl t)"
| "apply_suspicion_op threshold db (FlushExpired t) = snd (flushExpired db t)"

definition run_suspicion :: "int \<Rightarrow> suspicion_op list \<Rightarrow> redis" where
  "run_suspicion threshold ops = foldl (apply_suspicion_op threshold) [] ops"

text \<open>
  A record is due for the sweep when its \<open>expiry\<close> is not after \<open>now\<close>;
  \<open>key_expired\<close> reads the same from the database, as the loop does.
\<close>

definition is_expired :: "int \<Rightarrow> suspicion_hash \<Rightarrow> bool" where
  "is_expired now h = (case expiry h of None \<Rightarrow> False | Some e \<Rightarrow> e \<le> now)"

definition key_expired :: "redis \<Rightarrow> int \<Rightarrow> string \<Rightarrow> bool" where
  "key_expired db now k = (case HGET db k expiry of None \<Rightarrow> False | Some e \<Rightarrow> e \<le> now)"

text \<open>
  The invariant of suspicion records for a threshold: all three fields are there, the
  score is at least 1, and a record marked \<open>'true'\<close> has reached the threshold.
\<close>

definition good_hash :: "int \<Rightarrow> suspicion_hash \<Rightarrow> bool" where
  "good_hash thr h =
     (case (score h, expiry h, isBlocked h) of
        (Some s, Some e, Some b) \<Rightarrow> 1 \<le> s \<and> (b \<noteq> ''true'' \<or> thr \<le> s)
      | _ \<Rightarrow> False)"

definition suspicion_inv :: "int \<Rightarrow> redis \<Rightarrow> bool" where
  "suspicion_inv thr db = list_all (\<lambda>p. good_hash thr (snd p)) db"

section \<open>Attack signature detector and admission gate\<close>

text \<open>
  A request carries \<open>ip\<close> (which may be undefined) and the three objects \<open>query\<close>,
  \<open>body\<close> and \<open>params\<close>. An object is the list of its own properties; a property
  value is a string or something else. A \<open>RegExp\<close> is taken by what \<open>test\<close> answers
  on a string (the \<open>lastIndex\<close> state of a global or sticky pattern is not modelled).
  The three pattern lists are imported from \<open>./detection-patterns\<close> and are
  parameters here.
\<close>

datatype jsval = JString string | JOther

type_synonym jsobject = "(string \<times> jsval) list"

type_synonym regexp = "string \<Rightarrow> bool"

record request =
  ip :: "string option"
  query :: jsobject
  body :: jsobject
  params :: jsobject

record detection_patterns =
  detectXSSPatterns :: "regexp list"
  detectSQLInjectionPatterns :: "regexp list"
  detectLfiPatterns :: "regexp list"

text \<open>
  \<open>ShieldOptions\<close>: every property is optional, \<open>None\<close> is a property that is
  missing or undefined. The \<open>store\<close> is passed on its own, and \<open>detectionPatterns\<close>
  is read nowhere.
\<close>

record ShieldOptions =
  suspicionThreshold :: "int option"
  blockDurationMs :: "int option"
  message :: "string option"
  csrf :: "bool option"
  xss :: "bool option"
  sqlInjection :: "bool option"
  lfi :: "bool option"
  rfi :: "bool option"
  shellInjection :: "bool option"

definition truthy :: "bool option \<Rightarrow> bool" where
  "truthy b = (b = Some True)"

text \<open>The object \<open>{ ...req.query, ...req.body, ...req.params }\<close>: later properties win.\<close>

definition spread :: "jsobject list \<Rightarrow> jsobject" where
  "spread objs = foldl (\<lambda>acc p. AList.update (fst p) (snd p) acc) [] (concat objs)"

definition isAttackDetected :: "jsobject \<Rightarrow> regexp list \<Rightarrow> bool" where
  "isAttackDetected input patterns =
     list_ex (\<lambda>v. case v of JString s \<Rightarrow> list_ex (\<lambda>pattern. pattern s) patterns
                          | JOther \<Rightarrow> False)
       (map snd input)"

record detection =
  isSuspicious :: bool
  attackTypes :: "string list"

definition detectMaliciousRequest ::
  "detection_patterns \<Rightarrow> request \<Rightarrow> ShieldOptions \<Rightarrow> detection" where
  "detectMaliciousRequest pats req options =
     (let fields = spread [query req, body req, params req];
          types0 = [];
          types1 = (if truthy (xss options) \<and> isAttackDetected fields (detectXSSPatterns pats)
                    then types0 @ [''XSS''] else types0);
          types2 = (if truthy (sqlInjection options) \<and>
                       isAttackDetected fields (detectSQLInjectionPatterns pats)
                    then types1 @ [''SQL Injection''] else types1);
          types3 = (if truthy (lfi options) \<and> isAttackDetected fields (detectLfiPatterns pats)
                    then types2 @ [''LFI''] else types2)
      in \<lparr>isSuspicious = length types3 > 0, attackTypes = types3\<rparr>)"

text \<open>
  The \<open>ZShield\<close> constructor takes a \<open>Partial<ShieldOptions>\<close>. For each property
  of the argument \<open>None\<close> is a property that is not there, \<open>Some None\<close> one that is
  there with the value undefined, and \<open>Some (Some v)\<close> one given as \<open>v\<close>. The spread
  \<open>{ ...defaults, ...options }\<close> keeps a default only where the property is not there;
  then the two numbers are read back with their \<open>??\<close> fallbacks.
\<close>

record PartialShieldOptions =
  given_suspicionThreshold :: "int option option"
  given_blockDurationMs :: "int option option"
  given_message :: "string option option"
  given_csrf :: "bool option option"
  given_xss :: "bool option option"
  given_sqlInjection :: "bool option option"
  given_lfi :: "bool option option"
  given_rfi :: "bool option option"
  given_shellInjection :: "bool option option"

record ZShield =
  options :: ShieldOptions
  shield_suspicionThreshold :: int
  shield_blockDurationMs :: int

definition or_default :: "'a option option \<Rightarrow> 'a \<Rightarrow> 'a option" where
  "or_default given dflt = (case given of None \<Rightarrow> Some dflt | Some v \<Rightarrow> v)"

definition new_ZShield :: "PartialShieldOptions \<Rightarrow> ZShield" where
  "new_ZShield given =
     (let opts = \<lparr>suspicionThreshold = or_default (given_suspicionThreshold given) 5,
                  blockDurationMs = or_default (given_blockDurationMs given) 60000,
                  message = or_default (given_message given)
                              ''Access denied due to suspicious activity.'',
                  csrf = or_default (given_csrf given) True,
                  xss = or_default (given_xss given) True,
                  sqlInjection = or_default (given_sqlInjection given) True,
                  lfi = or_default (given_lfi given) True,
                  rfi = or_default (given_rfi given) True,
                  shellInjection = or_default (given_shellInjection given) True\<rparr>
      in \<lparr>options = opts,
          shield_suspicionThreshold = (case suspicionThreshold opts of None \<Rightarrow> 5 | Some n \<Rightarrow> n),
          shield_blockDurationMs = (case blockDurationMs opts of None \<Rightarrow> 60000 | Some n \<Rightarrow> n)\<rparr>)"

text \<open>
  The store behind the gate is an interface (\<open>StoreInterface\<close>): its two operations
  used here are parameters, each returning its answer and the store it leaves.
  The gate's run is its outcome, the calls it made in order, and the final store.
\<close>

record 's StoreInterface =
  store_isBlocked :: "'s \<Rightarrow> string \<Rightarrow> bool \<times> 's"
  store_increment :: "'s \<Rightarrow> string \<Rightarrow> int \<Rightarrow> int \<times> 's"

datatype gate_call =
    CallIsBlocked string
  | CallDetector
  | CallIncrement string int

datatype gate_outcome =
    Forbidden "string option" "string list option"
      \<comment> \<open>status 403 with \<open>error\<close> and, when given, \<open>detectedAttacks\<close>\<close>
  | Next

definition middleware ::
  "'s StoreInterface \<Rightarrow> detection_patterns \<Rightarrow> ZShield \<Rightarrow> request \<Rightarrow> 's
     \<Rightarrow> (gate_outcome \<times> gate_call list) \<times> 's" where
  "middleware store pats this req s =
     (case ip req of
        None \<Rightarrow> ((Forbidden (message (options this)) None, []), s)
      | Some clientIP \<Rightarrow>
          if clientIP = [] then ((Forbidden (message (options this)) None, []), s)
          else
            (case store_isBlocked store s clientIP of
               (blocked, s1) \<Rightarrow>
                 if blocked
                 then ((Forbidden (message (options this)) None, [CallIsBlocked clientIP]), s1)
                 else
                   (let d = detectMaliciousRequest pats req (options this) in
                    if \<not> isSuspicious d
                    then ((Next, [CallIsBlocked clientIP, CallDetector]), s1)
                    else
                      (case store_increment store s1 clientIP (shield_blockDurationMs this) of
                         (currentScore, s2) \<Rightarrow>
                           let calls = [CallIsBlocked clientIP, CallDetector,
                                        CallIncrement clientIP (shield_blockDurationMs this)] in
                           if currentScore \<ge> shield_suspicionThreshold this
                           then ((Forbidden (message (options this)) (Some (attackTypes d)),
                                  calls), s2)
                           else ((Next, calls), s2)))))"

text \<open>Sample data: three one-pattern lists, a request, the empty options, a counting store.\<close>

definition sample_patterns :: detection_patterns where
  "sample_patterns =
     \<lparr>detectXSSPatterns = [\<lambda>s. take 7 s = ''<script''],
      detectSQLInjectionPatterns = [\<lambda>s. s = ''1 OR 1=1''],
      detectLfiPatterns = [\<lambda>s. take 3 s = ''../'']\<rparr>"

definition sample_request :: request where
  "sample_request =
     \<lparr>ip = Some ''10.0.0.1'',
      query = [(''q'', JString ''<script>alert(1)</script>''), (''n'', JOther)],
      body = [(''id'', JString ''1 OR 1=1'')],
      params = [(''q'', JString ''../etc/passwd'')]\<rparr>"

definition no_options :: PartialShieldOptions where
  "no_options =
     \<lparr>given_suspicionThreshold = None, given_blockDurationMs = None, given_message = None,
      given_csrf = None, given_xss = None, given_sqlInjection = None, given_lfi = None,
      given_rfi = None, given_shellInjection = None\<rparr>"

definition sample_store :: "int StoreInterface" where
  "sample_store = \<lparr>store_isBlocked = (\<lambda>s k. (2 \<le> s, s)),
                    store_increment = (\<lambda>s k d. (s + 1, s + 1))\<rparr>"

section \<open>Rate limiter stores\<close>

text \<open>
  JavaScript numbers are taken as real numbers: rounding of floating point and the
  values \<open>Infinity\<close> and \<open>NaN\<close> (a division by zero in \<open>init\<close>) are outside the
  model. \<open>Date.now()\<close> is a parameter \<open>now\<close> of each operation that reads the clock, in
  whole milliseconds. \<open>new Date(v)\<close> keeps the time value \<open>v\<close> cut to whole
  milliseconds towards zero.
\<close>

record ClientRateLimitInfo =
  totalHits :: real
  resetTime :: int

definition new_Date :: "real \<Rightarrow> int" where
  "new_Date v = (if 0 \<le> v then \<lfloor>v\<rfloor> else \<lceil>v\<rceil>)"

subsection \<open>\<open>MemoryLeakyBucketStore\<close>\<close>

record Client =
  remaining :: real
  lastUpdated :: int

record Options =
  max' :: "real option"      \<comment> \<open>\<open>None\<close>: \<open>options.max\<close> is not a number\<close>
  windowMs :: "real option"

record MemoryLeakyBucketStore =
  bucketCapacity :: real
  leakRate :: real
  clients :: "string \<rightharpoonup> Client"

definition leaky_init :: "Options \<Rightarrow> MemoryLeakyBucketStore" where
  "leaky_init opts =
     (let capacity = (case max' opts of Some m \<Rightarrow> m | None \<Rightarrow> 10)
      in \<lparr>bucketCapacity = capacity,
          leakRate = capacity / (case windowMs opts of Some w \<Rightarrow> w | None \<Rightarrow> 60000),
          clients = Map.empty\<rparr>)"

definition updateBucket :: "MemoryLeakyBucketStore \<Rightarrow> int \<Rightarrow> Client \<Rightarrow> Client" where
  "updateBucket this now client =
     (let elapsedTime = now - lastUpdated client;
          leaked = real_of_int elapsedTime * leakRate this
      in \<lparr>remaining = min (remaining client + leaked) (bucketCapacity this),
          lastUpdated = now\<rparr>)"

text \<open>
  \<open>getClient\<close> returns the client and the store, in which a missing client has been
  created at full capacity. The two clock readings of one \<open>increment\<close> (in
  \<open>getClient\<close> and in \<open>updateBucket\<close>) are the same \<open>now\<close>.
\<close>

definition getClient ::
  "MemoryLeakyBucketStore \<Rightarrow> string \<Rightarrow> int \<Rightarrow> Client \<times> MemoryLeakyBucketStore" where
  "getClient this key now =
     (case clients this key of
        Some client \<Rightarrow> (client, this)
      | None \<Rightarrow>
          (let client = \<lparr>remaining = bucketCapacity this, lastUpdated = now\<rparr>
           in (client, this\<lparr>clients := (clients this)(key \<mapsto> client)\<rparr>)))"

definition leaky_resetTime :: "MemoryLeakyBucketStore \<Rightarrow> Client \<Rightarrow> int" where
  "leaky_resetTime this client =
     new_Date (real_of_int (lastUpdated client) + bucketCapacity this / leakRate this)"

definition leaky_get ::
  "MemoryLeakyBucketStore \<Rightarrow> string \<Rightarrow> int
     \<Rightarrow> ClientRateLimitInfo option \<times> MemoryLeakyBucketStore" where
  "leaky_get this key now =
     (case clients this key of
        None \<Rightarrow> (None, this)
      | Some client \<Rightarrow>
          (let client' = updateBucket this now client
           in (Some \<lparr>totalHits = remaining client',
                     resetTime = leaky_resetTime this client'\<rparr>,
               this\<lparr>clients := (clients this)(key \<mapsto> client')\<rparr>)))"

definition leaky_increment ::
  "MemoryLeakyBucketStore \<Rightarrow> string \<Rightarrow> int \<Rightarrow> ClientRateLimitInfo \<times> MemoryLeakyBucketStore" where
  "leaky_increment this key now =
     (case getClient this key now of
        (client, this1) \<Rightarrow>
          (let client' = updateBucket this1 now client
           in if remaining client' \<le> 0
              then (\<lparr>totalHits = 0, resetTime = leaky_resetTime this1 client'\<rparr>,
                    this1\<lparr>clients := (clients this1)(key \<mapsto> client')\<rparr>)
              else
                (let client'' = client'\<lparr>remaining := remaining client' - 1\<rparr>
                 in (\<lparr>totalHits = remaining client'',
                      resetTime = leaky_resetTime this1 client''\<rparr>,
                     this1\<lparr>clients := (clients this1)(key \<mapsto> client'')\<rparr>))))"

definition leaky_decrement :: "MemoryLeakyBucketStore \<Rightarrow> string \<Rightarrow> MemoryLeakyBucketStore" where
  "leaky_decrement this key =
     (case clients this key of
        None \<Rightarrow> this
      | Some client \<Rightarrow>
          this\<lparr>clients := (clients this)(key \<mapsto>
                  client\<lparr>remaining := min (remaining client + 1) (bucketCapacity this)\<rparr>)\<rparr>)"

definition leaky_resetKey :: "MemoryLeakyBucketStore \<Rightarrow> string \<Rightarrow> MemoryLeakyBucketStore" where
  "leaky_resetKey this key = this\<lparr>clients := (clients this)(key := None)\<rparr>"

definition leaky_resetAll :: "MemoryLeakyBucketStore \<Rightarrow> MemoryLeakyBucketStore" where
  "leaky_resetAll this = this\<lparr>clients := Map.empty\<rparr>"

text \<open>Operation sequences on a store, each clock-reading operation with its \<open>now\<close>.\<close>

datatype bucket_op =
    OpGet string int
  | OpIncrement string int
  | OpDecrement string
  | OpResetKey string
  | OpResetAll

fun leaky_apply :: "MemoryLeakyBucketStore \<Rightarrow> bucket_op \<Rightarrow> MemoryLeakyBucketStore" where
  "leaky_apply this (OpGet key now) = snd (leaky_get this key now)"
| "leaky_apply this (OpIncrement key now) = snd (leaky_increment this key now)"
| "leaky_apply this (OpDecrement key) = leaky_decrement this key"
| "leaky_apply this (OpResetKey key) = leaky_resetKey this key"
| "leaky_apply this OpResetAll = leaky_resetAll this"

definition leaky_run :: "MemoryLeakyBucketStore \<Rightarrow> bucket_op list \<Rightarrow> MemoryLeakyBucketStore" where
  "leaky_run this ops = foldl leaky_apply this ops"

subsection \<open>\<open>PostgresTokenBucketStore\<close>\<close>

text \<open>
  The table \<open>token_buckets\<close> maps a key to its row. The database behind the pool is
  the committed table, the working copy of the transaction that is open (if one is),
  the outcomes of the calls to come (\<open>Some e\<close>: the call fails with \<open>e\<close> and changes
  nothing; a missing entry: it succeeds) and the number of clients checked out.
  One session is modelled: row locks and other sessions are not. The range of the
  \<open>INT\<close> column is not checked.
\<close>

record token_row =
  tokens :: int
  last_refill_time :: int

type_synonym token_buckets = "string \<rightharpoonup> token_row"

datatype pg_error = PgError string

record pg_pool =
  table :: token_buckets
  txn :: "token_buckets option"
  faults :: "pg_error option list"
  checked_out :: nat

datatype statement =
    BEGIN
  | COMMIT
  | ROLLBACK
  | SELECT_FOR_UPDATE string   \<comment> \<open>\<open>SELECT ... WHERE key = $1 FOR UPDATE\<close>\<close>
  | SELECT string              \<comment> \<open>\<open>SELECT tokens, last_refill_time ... WHERE key = $1\<close>\<close>
  | UPSERT string int int      \<comment> \<open>\<open>INSERT ... ON CONFLICT (key) DO UPDATE SET ...\<close>\<close>
  | UPDATE_tokens int string   \<comment> \<open>\<open>UPDATE token_buckets SET tokens = $1 WHERE key = $2\<close>\<close>
  | DELETE_all                 \<comment> \<open>\<open>DELETE FROM token_buckets\<close>\<close>
  | CREATE_TABLE               \<comment> \<open>\<open>CREATE TABLE IF NOT EXISTS token_buckets ...\<close>\<close>

definition visible :: "pg_pool \<Rightarrow> token_buckets" where
  "visible p = (case txn p of Some w \<Rightarrow> w | None \<Rightarrow> table p)"

definition write_rows :: "(token_buckets \<Rightarrow> token_buckets) \<Rightarrow> pg_pool \<Rightarrow> pg_pool" where
  "write_rows f p = (case txn p of Some w \<Rightarrow> p\<lparr>txn := Some (f w)\<rparr> | None \<Rightarrow> p\<lparr>table := f (table p)\<rparr>)"

fun run_statement :: "statement \<Rightarrow> pg_pool \<Rightarrow> token_row list \<times> pg_pool" where
  "run_statement BEGIN p = ([], p\<lparr>txn := Some (table p)\<rparr>)"
| "run_statement COMMIT p =
     (case txn p of Some w \<Rightarrow> ([], p\<lparr>table := w, txn := None\<rparr>) | None \<Rightarrow> ([], p))"
| "run_statement ROLLBACK p = ([], p\<lparr>txn := None\<rparr>)"
| "run_statement (SELECT_FOR_UPDATE key) p =
     (case visible p key of None \<Rightarrow> ([], p) | Some row \<Rightarrow> ([row], p))"
| "run_statement (SELECT key) p =
     (case visible p key of None \<Rightarrow> ([], p) | Some row \<Rightarrow> ([row], p))"
| "run_statement (UPSERT key t l) p =
     ([], write_rows (\<lambda>w. w(key \<mapsto> \<lparr>tokens = t, last_refill_time = l\<rparr>)) p)"
| "run_statement (UPDATE_tokens t key) p =
     ([], write_rows (\<lambda>w. case w key of None \<Rightarrow> w | Some row \<Rightarrow> w(key \<mapsto> row\<lparr>tokens := t\<rparr>)) p)"
| "run_statement DELETE_all p = ([], write_rows (\<lambda>w. Map.empty) p)"
| "run_statement CREATE_TABLE p = ([], p)"

text \<open>The outcome of the next call: taken from \<open>faults\<close>.\<close>

definition next_outcome :: "pg_pool \<Rightarrow> pg_error option \<times> pg_pool" where
  "next_outcome p = (case faults p of [] \<Rightarrow> (None, p) | x # xs \<Rightarrow> (x, p\<lparr>faults := xs\<rparr>))"

text \<open>\<open>client.query\<close>, on the client that holds the transaction.\<close>

definition client_query :: "statement \<Rightarrow> pg_pool \<Rightarrow> (pg_error + token_row list) \<times> pg_pool" where
  "client_query st p =
     (case next_outcome p of
        (Some e, p') \<Rightarrow> (Inl e, p')
      | (None, p') \<Rightarrow> (case run_statement st p' of (rows, p'') \<Rightarrow> (Inr rows, p'')))"

text \<open>\<open>pool.query\<close>: one statement on a connection of its own, outside any transaction.\<close>

definition pool_query :: "statement \<Rightarrow> pg_pool \<Rightarrow> (pg_error + token_row list) \<times> pg_pool" where
  "pool_query st p =
     (case next_outcome p of
        (Some e, p') \<Rightarrow> (Inl e, p')
      | (None, p') \<Rightarrow>
          (case run_statement st (p'\<lparr>txn := None\<rparr>) of
             (rows, p'') \<Rightarrow> (Inr rows, p''\<lparr>txn := txn p'\<rparr>)))"

definition pool_connect :: "pg_pool \<Rightarrow> (pg_error + unit) \<times> pg_pool" where
  "pool_connect p =
     (case next_outcome p of
        (Some e, p') \<Rightarrow> (Inl e, p')
      | (None, p') \<Rightarrow> (Inr (), p'\<lparr>checked_out := checked_out p' + 1\<rparr>))"

definition client_release :: "pg_pool \<Rightarrow> pg_pool" where
  "client_release p = p\<lparr>checked_out := checked_out p - 1\<rparr>"

text \<open>\<open>await\<close>: a rejected promise leaves the rest of the block out.\<close>

definition await ::
  "(pg_error + 'a) \<times> pg_pool \<Rightarrow> ('a \<Rightarrow> pg_pool \<Rightarrow> (pg_error + 'b) \<times> pg_pool)
     \<Rightarrow> (pg_error + 'b) \<times> pg_pool" where
  "await m f = (case m of (Inl e, p) \<Rightarrow> (Inl e, p) | (Inr v, p) \<Rightarrow> f v p)"

text \<open>
  \<open>try { body } catch (error) { await client.query('ROLLBACK'); throw error; }
  finally { client.release(); }\<close>
\<close>

definition try_rollback_release ::
  "(pg_pool \<Rightarrow> (pg_error + 'a) \<times> pg_pool) \<Rightarrow> pg_pool \<Rightarrow> (pg_error + 'a) \<times> pg_pool" where
  "try_rollback_release block p =
     (case block p of
        (Inr v, p1) \<Rightarrow> (Inr v, client_release p1)
      | (Inl error, p1) \<Rightarrow>
          (case client_query ROLLBACK p1 of
             (Inl rollback_error, p2) \<Rightarrow> (Inl rollback_error, client_release p2)
           | (Inr _, p2) \<Rightarrow> (Inl error, client_release p2)))"

record BucketOptions =
  refillRate :: "real option"
  maxTokens :: "int option"    \<comment> \<open>\<open>None\<close>: \<open>options.maxTokens\<close> is not a number\<close>

record PostgresTokenBucketStore =
  refillInterval :: real
  pg_bucketCapacity :: int
  tokensPerInterval :: real

text \<open>The fields \<open>init\<close> sets, and \<open>init\<close> with its \<open>CREATE TABLE\<close>.\<close>

definition pg_fields :: "BucketOptions \<Rightarrow> PostgresTokenBucketStore" where
  "pg_fields opts =
     (let interval = 1000 / (case refillRate opts of Some r \<Rightarrow> r | None \<Rightarrow> 1)
      in \<lparr>refillInterval = interval,
          pg_bucketCapacity = (case maxTokens opts of Some m \<Rightarrow> m | None \<Rightarrow> 10),
          tokensPerInterval =
            (case refillRate opts of Some r \<Rightarrow> r | None \<Rightarrow> 1 / (interval / 1000))\<rparr>)"

definition pg_init ::
  "BucketOptions \<Rightarrow> pg_pool \<Rightarrow> (pg_error + PostgresTokenBucketStore) \<times> pg_pool" where
  "pg_init opts p = await (pool_query CREATE_TABLE p) (\<lambda>_ p1. (Inr (pg_fields opts), p1))"

definition pg_resetTime :: "PostgresTokenBucketStore \<Rightarrow> int \<Rightarrow> int" where
  "pg_resetTime this lastRefillTime = new_Date (real_of_int lastRefillTime + refillInterval this)"

definition pg_increment_body ::
  "PostgresTokenBucketStore \<Rightarrow> string \<Rightarrow> int \<Rightarrow> pg_pool
     \<Rightarrow> (pg_error + ClientRateLimitInfo) \<times> pg_pool" where
  "pg_increment_body this key now p =
     await (client_query BEGIN p) (\<lambda>_ p1.
     await (client_query (SELECT_FOR_UPDATE key) p1) (\<lambda>rows p2.
       let currentTokens = (case rows of [] \<Rightarrow> 0 | row # _ \<Rightarrow> tokens row);
           lastRefillTime = (case rows of [] \<Rightarrow> now | row # _ \<Rightarrow> last_refill_time row);
           elapsedTime = now - lastRefillTime;
           tokensToAdd = \<lfloor>(real_of_int elapsedTime / 1000) * tokensPerInterval this\<rfloor>;
           newTokens = min (currentTokens + tokensToAdd) (pg_bucketCapacity this);
           canConsume = newTokens > 0;
           updatedTokens = (if canConsume then newTokens - 1 else newTokens)
       in
     await (client_query (UPSERT key updatedTokens now) p2) (\<lambda>_ p3.
     await (client_query COMMIT p3) (\<lambda>_ p4.
       (Inr \<lparr>totalHits = real_of_int updatedTokens,
             resetTime = pg_resetTime this lastRefillTime\<rparr>, p4)))))"

definition pg_increment ::
  "PostgresTokenBucketStore \<Rightarrow> string \<Rightarrow> int \<Rightarrow> pg_pool
     \<Rightarrow> (pg_error + ClientRateLimitInfo) \<times> pg_pool" where
  "pg_increment this key now p =
     await (pool_connect p) (\<lambda>_ p0. try_rollback_release (pg_increment_body this key now) p0)"

definition pg_get ::
  "PostgresTokenBucketStore \<Rightarrow> string \<Rightarrow> pg_pool
     \<Rightarrow> (pg_error + ClientRateLimitInfo option) \<times> pg_pool" where
  "pg_get this key p =
     await (pool_query (SELECT key) p) (\<lambda>rows p1.
       case rows of
         [] \<Rightarrow> (Inr None, p1)
       | row # _ \<Rightarrow>
           (Inr (Some \<lparr>totalHits = real_of_int (tokens row),
                       resetTime = pg_resetTime this (last_refill_time row)\<rparr>), p1))"

definition pg_decrement_body ::
  "PostgresTokenBucketStore \<Rightarrow> string \<Rightarrow> pg_pool \<Rightarrow> (pg_error + unit) \<times> pg_pool" where
  "pg_decrement_body this key p =
     await (client_query BEGIN p) (\<lambda>_ p1.
     await (client_query (SELECT_FOR_UPDATE key) p1) (\<lambda>rows p2.
     await (case rows of
              [] \<Rightarrow> (Inr [], p2)
            | row # _ \<Rightarrow>
                (let currentTokens = tokens row;
                     newTokens = min (currentTokens + 1) (pg_bucketCapacity this)
                 in client_query (UPDATE_tokens newTokens key) p2)) (\<lambda>_ p3.
     await (client_query COMMIT p3) (\<lambda>_ p4. (Inr (), p4)))))"

definition pg_decrement ::
  "PostgresTokenBucketStore \<Rightarrow> string \<Rightarrow> pg_pool \<Rightarrow> (pg_error + unit) \<times> pg_pool" where
  "pg_decrement this key p =
     await (pool_connect p) (\<lambda>_ p0. try_rollback_release (pg_decrement_body this key) p0)"

definition pg_resetKey ::
  "PostgresTokenBucketStore \<Rightarrow> string \<Rightarrow> int \<Rightarrow> pg_pool \<Rightarrow> (pg_error + unit) \<times> pg_pool" where
  "pg_resetKey this key now p =
     await (pool_query (UPSERT key (pg_bucketCapacity this) now) p) (\<lambda>_ p1. (Inr (), p1))"

definition pg_resetAll :: "pg_pool \<Rightarrow> (pg_error + unit) \<times> pg_pool" where
  "pg_resetAll p = await (pool_query DELETE_all p) (\<lambda>_ p1. (Inr (), p1))"

text \<open>A pool at rest: no open transaction, no client checked out, every call succeeds.\<close>

definition quiet_pool :: "token_buckets \<Rightarrow> pg_pool" where
  "quiet_pool t = \<lparr>table = t, txn = None, faults = [], checked_out = 0\<rparr>"

text \<open>
  Sample stores, and the readers of a returned info (\<open>None\<close> where the call returned
  no info).
\<close>

definition ten_at_one_per_second :: PostgresTokenBucketStore where
  "ten_at_one_per_second = pg_fields \<lparr>refillRate = Some 1, maxTokens = Some 10\<rparr>"

definition five_per_ten_seconds :: MemoryLeakyBucketStore where
  "five_per_ten_seconds = leaky_init \<lparr>max' = Some 5, windowMs = Some 10000\<rparr>"

definition ten_per_ten_seconds :: MemoryLeakyBucketStore where
  "ten_per_ten_seconds = leaky_init \<lparr>max' = Some 10, windowMs = Some 10000\<rparr>"

definition info_totalHits :: "(pg_error + ClientRateLimitInfo option) \<Rightarrow> real option" where
  "info_totalHits r = (case r of Inr (Some info) \<Rightarrow> Some (totalHits info) | _ \<Rightarrow> None)"

definition info_resetTime :: "(pg_error + ClientRateLimitInfo) \<Rightarrow> int option" where
  "info_resetTime r = (case r of Inr info \<Rightarrow> Some (resetTime info) | Inl _ \<Rightarrow> None)"

text \<open>The bound on a stored row of the token bucket: \<open>0 \<le> tokens \<le> capacity\<close>.\<close>

definition row_in_bounds :: "PostgresTokenBucketStore \<Rightarrow> token_row option \<Rightarrow> bool" where
  "row_in_bounds this r = (case r of None \<Rightarrow> True
     | Some row \<Rightarrow> 0 \<le> tokens row \<and> tokens row \<le> pg_bucketCapacity this)"

text \<open>
  Options \<open>init\<close> can work with: a \<open>max\<close> that is not negative and a positive
  \<open>windowMs\<close>, where given. The upper bound on the records of a leaky-bucket store.
\<close>

definition valid_Options :: "Options \<Rightarrow> bool" where
  "valid_Options opts =
     ((case max' opts of None \<Rightarrow> True | Some m \<Rightarrow> 0 \<le> m) \<and>
      (case windowMs opts of None \<Rightarrow> True | Some w \<Rightarrow> 0 < w))"

definition within_capacity :: "MemoryLeakyBucketStore \<Rightarrow> bool" where
  "within_capacity st =
     (\<forall>k. case clients st k of None \<Rightarrow> True | Some c \<Rightarrow> remaining c \<le> bucketCapacity st)"

lemma map_of_HMSET:
  "map_of (HMSET db key f) k =
     (if k = key then Some (f (case map_of db key of None \<Rightarrow> no_fields | Some h \<Rightarrow> h))
      else map_of db k)"
  by (simp add: HMSET_def update_conv')

lemma map_of_DEL: "map_of (DEL db key) k = (if k = key then None else map_of db k)"
  by (simp add: DEL_def delete_conv)

lemma DEL_filter: "DEL db key = filter (\<lambda>p. fst p \<noteq> key) db"
  by (induction db) (auto simp: DEL_def)

lemma filter_DEL: "filter Q (DEL db key) = filter (\<lambda>p. fst p \<noteq> key \<and> Q p) db"
  by (simp add: DEL_filter conj_commute)

lemma HGET_DEL_other: "k \<noteq> key \<Longrightarrow> HGET (DEL db key) k f = HGET db k f"
  by (simp add: HGET_def map_of_DEL)

lemma key_expired_DEL_other: "k \<noteq> key \<Longrightarrow> key_expired (DEL db key) now k = key_expired db now k"
  by (simp add: key_expired_def HGET_DEL_other)

lemma flush_loop_filter:
  "distinct keys \<Longrightarrow> \<forall>k\<in>set keys. HGET db k expiry \<noteq> None \<Longrightarrow>
   flush_loop keys now db n =
     (Inr (n + length (filter (key_expired db now) keys)),
      filter (\<lambda>p. \<not> (fst p \<in> set keys \<and> key_expired db now (fst p))) db)"
proof (induction keys arbitrary: db n)
  case Nil
  then show ?case by simp
next
  case (Cons key keys)
  from Cons.prems obtain e where e: "HGET db key expiry = Some e" by auto
  have notin: "key \<notin> set keys" and dist: "distinct keys" using Cons.prems by auto
  show ?case
  proof (cases "e \<le> now")
    case True
    have kex: "key_expired db now key" using e True by (simp add: key_expired_def)
    have same: "\<And>k. k \<in> set keys \<Longrightarrow> key_expired (DEL db key) now k = key_expired db now k"
      using notin by (intro key_expired_DEL_other) auto
    have pre: "\<forall>k\<in>set keys. HGET (DEL db key) k expiry \<noteq> None"
    proof
      fix k assume k: "k \<in> set keys"
      then have "k \<noteq> key" using notin by auto
      then have "HGET (DEL db key) k expiry = HGET db k expiry" by (rule HGET_DEL_other)
      then show "HGET (DEL db key) k expiry \<noteq> None" using Cons.prems(2) k by simp
    qed
    have cnt: "filter (key_expired (DEL db key) now) keys = filter (key_expired db now) keys"
      by (rule filter_cong) (simp_all add: same)
    have fl: "filter (\<lambda>p. \<not> (fst p \<in> set keys \<and> key_expired (DEL db key) now (fst p))) (DEL db key)
            = filter (\<lambda>p. \<not> (fst p \<in> set (key # keys) \<and> key_expired db now (fst p))) db"
      unfolding filter_DEL
      by (rule filter_cong) (use kex same in auto)
    have "flush_loop (key # keys) now db n = flush_loop keys now (DEL db key) (n + 1)"
      using e True by simp
    also have "\<dots> = (Inr (n + 1 + length (filter (key_expired (DEL db key) now) keys)),
        filter (\<lambda>p. \<not> (fst p \<in> set keys \<and> key_expired (DEL db key) now (fst p))) (DEL db key))"
      by (rule Cons.IH[OF dist pre])
    also have "\<dots> = (Inr (n + length (filter (key_expired db now) (key # keys))),
        filter (\<lambda>p. \<not> (fst p \<in> set (key # keys) \<and> key_expired db now (fst p))) db)"
      unfolding cnt fl using kex by simp
    finally show ?thesis .
  next
    case False
    have kex: "\<not> key_expired db now key" using e False by (simp add: key_expired_def)
    have pre: "\<forall>k\<in>set keys. HGET db k expiry \<noteq> None" using Cons.prems by auto
    have fl: "filter (\<lambda>p. \<not> (fst p \<in> set keys \<and> key_expired db now (fst p))) db
            = filter (\<lambda>p. \<not> (fst p \<in> set (key # keys) \<and> key_expired db now (fst p))) db"
      by (rule filter_cong) (use kex in auto)
    have "flush_loop (key # keys) now db n = flush_loop keys now db n"
      using e False by simp
    also have "\<dots> = (Inr (n + length (filter (key_expired db now) keys)),
        filter (\<lambda>p. \<not> (fst p \<in> set keys \<and> key_expired db now (fst p))) db)"
      by (rule Cons.IH[OF dist pre])
    also have "\<dots> = (Inr (n + length (filter (key_expired db now) (key # keys))),
        filter (\<lambda>p. \<not> (fst p \<in> set (key # keys) \<and> key_expired db now (fst p))) db)"
      unfolding fl using kex by simp
    finally show ?thesis .
  qed
qed

lemma HGET_distinct_entry:
  "distinct (map fst db) \<Longrightarrow> p \<in> set db \<Longrightarrow> HGET db (fst p) f = f (snd p)"
  by (cases p) (simp add: HGET_def)

text \<open>
  Claim C6. On a database whose keys are distinct and whose records all have an
  \<open>expiry\<close>, \<open>flushExpired\<close> deletes exactly the records with
  \<open>expiry \<le> now\<close>, keeps every record with \<open>expiry > now\<close> as it was (and
  in place), and returns the number of records it deleted.
\<close>

theorem flushExpired_exact:
  assumes "distinct (map fst db)" and "\<forall>p\<in>set db. expiry (snd p) \<noteq> None"
  shows "flushExpired db t =
           (Inr (length (filter (\<lambda>p. is_expired (now_ms t) (snd p)) db)),
            filter (\<lambda>p. \<not> is_expired (now_ms t) (snd p)) db)"
proof -
  have h: "\<And>p. p \<in> set db \<Longrightarrow> HGET db (fst p) expiry = expiry (snd p)"
    using assms(1) by (rule HGET_distinct_entry)
  have pre: "\<forall>k\<in>set (KEYS db). HGET db k expiry \<noteq> None"
    using assms(2) h by (auto simp: KEYS_def)
  have ex: "\<And>p. p \<in> set db \<Longrightarrow>
      key_expired db (now_ms t) (fst p) = is_expired (now_ms t) (snd p)"
    using h by (simp add: is_expired_def key_expired_def)
  have dk: "distinct (KEYS db)" using assms(1) by (simp add: KEYS_def)
  have "filter (key_expired db (now_ms t)) (map fst db)
        = map fst (filter (\<lambda>p. key_expired db (now_ms t) (fst p)) db)"
    by (simp add: filter_map comp_def)
  also have "filter (\<lambda>p. key_expired db (now_ms t) (fst p)) db
        = filter (\<lambda>p. is_expired (now_ms t) (snd p)) db"
    by (rule filter_cong) (simp_all add: ex)
  finally have cnt: "length (filter (key_expired db (now_ms t)) (KEYS db))
           = length (filter (\<lambda>p. is_expired (now_ms t) (snd p)) db)"
    by (simp add: KEYS_def)
  have fl: "filter (\<lambda>p. \<not> (fst p \<in> set (KEYS db) \<and> key_expired db (now_ms t) (fst p))) db
          = filter (\<lambda>p. \<not> is_expired (now_ms t) (snd p)) db"
    by (rule filter_cong) (auto simp: ex KEYS_def)
  have "flushExpired db t = flush_loop (KEYS db) (now_ms t) db 0"
    by (simp add: flushExpired_def)
  also have "\<dots> = (Inr (0 + length (filter (key_expired db (now_ms t)) (KEYS db))),
      filter (\<lambda>p. \<not> (fst p \<in> set (KEYS db) \<and> key_expired db (now_ms t) (fst p))) db)"
    by (rule flush_loop_filter[OF dk pre])
  finally show ?thesis unfolding cnt fl by simp
qed

theorem flushExpired_exact_witness:
  "flushExpired [(''a'', \<lparr>score = Some 1, expiry = Some 5000, isBlocked = Some ''false''\<rparr>),
                 (''b'', \<lparr>score = Some 3, expiry = Some 9000, isBlocked = Some ''true''\<rparr>),
                 (''c'', \<lparr>score = Some 2, expiry = Some 7000, isBlocked = Some ''false''\<rparr>)] 7
   = (Inr 2, [(''b'', \<lparr>score = Some 3, expiry = Some 9000, isBlocked = Some ''true''\<rparr>)])"
  using flushExpired_exact
    [of "[(''a'', \<lparr>score = Some 1, expiry = Some 5000, isBlocked = Some ''false''\<rparr>),
          (''b'', \<lparr>score = Some 3, expiry = Some 9000, isBlocked = Some ''true''\<rparr>),
          (''c'', \<lparr>score = Some 2, expiry = Some 7000, isBlocked = Some ''false''\<rparr>)]" 7]
  by (simp add: is_expired_def now_ms_def)

lemma HGET_HMSET_same:
  "HGET (HMSET db key f) key field =
     field (f (case map_of db key of None \<Rightarrow> no_fields | Some h \<Rightarrow> h))"
  by (simp add: HGET_def map_of_HMSET)

text \<open>
  Claim C3. \<open>scripts.increment\<close> is one function from the database to the
  returned score and the new database. When the record has no score or its expiry is
  not after \<open>now\<close> it stores score 1, expiry \<open>now + ttl\<close>, \<open>isBlocked = 'false'\<close> and
  returns 1, whatever the score was. Otherwise it returns and stores the score plus one;
  if that reaches the threshold it stores \<open>isBlocked = 'true'\<close> and expiry
  \<open>now + blockDurationMs\<close>, else expiry \<open>now + ttl\<close> with \<open>isBlocked\<close> as it was.
  No other key changes.
\<close>

theorem script_increment_transition:
  "((HGET db key score = None \<or> (\<exists>e. HGET db key expiry = Some e \<and> e \<le> now_ms t)) \<longrightarrow>
      fst (script_increment db key thr dur ttl t) = Inr 1 \<and>
      HGET (snd (script_increment db key thr dur ttl t)) key score = Some 1 \<and>
      HGET (snd (script_increment db key thr dur ttl t)) key expiry = Some (now_ms t + ttl) \<and>
      HGET (snd (script_increment db key thr dur ttl t)) key isBlocked = Some ''false'') \<and>
   (\<forall>v e. HGET db key score = Some v \<and> HGET db key expiry = Some e \<and> now_ms t < e \<longrightarrow>
      fst (script_increment db key thr dur ttl t) = Inr (v + 1) \<and>
      HGET (snd (script_increment db key thr dur ttl t)) key score = Some (v + 1) \<and>
      (if thr \<le> v + 1
       then HGET (snd (script_increment db key thr dur ttl t)) key isBlocked = Some ''true'' \<and>
            HGET (snd (script_increment db key thr dur ttl t)) key expiry = Some (now_ms t + dur)
       else HGET (snd (script_increment db key thr dur ttl t)) key isBlocked = HGET db key isBlocked \<and>
            HGET (snd (script_increment db key thr dur ttl t)) key expiry = Some (now_ms t + ttl))) \<and>
   (\<forall>k. k \<noteq> key \<longrightarrow>
      map_of (snd (script_increment db key thr dur ttl t)) k = map_of db k)"
proof (intro conjI impI allI)
  fix k assume "k \<noteq> key"
  then show "map_of (snd (script_increment db key thr dur ttl t)) k = map_of db k"
    by (simp add: script_increment_def Let_def map_of_HMSET split: option.splits)
next
  assume a: "HGET db key score = None \<or> (\<exists>e. HGET db key expiry = Some e \<and> e \<le> now_ms t)"
  then have r: "script_increment db key thr dur ttl t =
      (Inr 1, HMSET db key (\<lambda>h. h\<lparr>score := Some 1, expiry := Some (now_ms t + ttl),
                                  isBlocked := Some ''false''\<rparr>))"
    by (auto simp: script_increment_def Let_def split: option.splits)
  show "fst (script_increment db key thr dur ttl t) = Inr 1"
    and "HGET (snd (script_increment db key thr dur ttl t)) key score = Some 1"
    and "HGET (snd (script_increment db key thr dur ttl t)) key expiry = Some (now_ms t + ttl)"
    and "HGET (snd (script_increment db key thr dur ttl t)) key isBlocked = Some ''false''"
    by (simp_all add: r HGET_HMSET_same)
next
  fix v e
  assume a: "HGET db key score = Some v \<and> HGET db key expiry = Some e \<and> now_ms t < e"
  then obtain h where h: "map_of db key = Some h"
    by (auto simp: HGET_def split: option.splits)
  have r: "script_increment db key thr dur ttl t =
      (if thr \<le> v + 1
       then (Inr (v + 1), HMSET db key (\<lambda>h. h\<lparr>score := Some (v + 1),
                expiry := Some (now_ms t + dur), isBlocked := Some ''true''\<rparr>))
       else (Inr (v + 1), HMSET db key (\<lambda>h. h\<lparr>score := Some (v + 1),
                expiry := Some (now_ms t + ttl)\<rparr>)))"
    using a by (simp add: script_increment_def Let_def)
  show "fst (script_increment db key thr dur ttl t) = Inr (v + 1)"
    and "HGET (snd (script_increment db key thr dur ttl t)) key score = Some (v + 1)"
    by (simp_all add: r HGET_HMSET_same)
  show "if thr \<le> v + 1
       then HGET (snd (script_increment db key thr dur ttl t)) key isBlocked = Some ''true'' \<and>
            HGET (snd (script_increment db key thr dur ttl t)) key expiry = Some (now_ms t + dur)
       else HGET (snd (script_increment db key thr dur ttl t)) key isBlocked = HGET db key isBlocked \<and>
            HGET (snd (script_increment db key thr dur ttl t)) key expiry = Some (now_ms t + ttl)"
    using h by (simp add: r HGET_HMSET_same) (simp add: HGET_def)
qed

theorem script_increment_transition_witness:
  "fst (script_increment [] ''10.0.0.1'' 2 60000 1000 7) = Inr 1 \<and>
   fst (script_increment (snd (script_increment [] ''10.0.0.1'' 2 60000 1000 7))
          ''10.0.0.1'' 2 60000 1000 7) = Inr 2 \<and>
   HGET (snd (script_increment (snd (script_increment [] ''10.0.0.1'' 2 60000 1000 7))
          ''10.0.0.1'' 2 60000 1000 7)) ''10.0.0.1'' isBlocked = Some ''true''"
  using script_increment_transition [of "[]" "''10.0.0.1''" 7 2 60000 1000]
    script_increment_transition
      [of "snd (script_increment [] ''10.0.0.1'' 2 60000 1000 7)" "''10.0.0.1''" 7 2 60000 1000]
  by (simp add: HGET_def now_ms_def)

lemma set_update_subset: "set (AList.update k v al) \<subseteq> insert (k, v) (set al)"
  by (induction al) auto

lemma suspicion_inv_HMSET:
  assumes "suspicion_inv thr db"
    and "good_hash thr (f (case map_of db key of None \<Rightarrow> no_fields | Some h \<Rightarrow> h))"
  shows "suspicion_inv thr (HMSET db key f)"
proof -
  have "good_hash thr (snd p)" if "p \<in> set (HMSET db key f)" for p
  proof -
    from that set_update_subset[of key _ db]
    have "p = (key, f (case map_of db key of None \<Rightarrow> no_fields | Some h \<Rightarrow> h)) \<or> p \<in> set db"
      unfolding HMSET_def by blast
    then show ?thesis
      using assms by (auto simp: suspicion_inv_def list_all_iff)
  qed
  then show ?thesis by (simp add: suspicion_inv_def list_all_iff)
qed

lemma suspicion_inv_lookup:
  "suspicion_inv thr db \<Longrightarrow> map_of db key = Some h \<Longrightarrow> good_hash thr h"
proof -
  assume inv: "suspicion_inv thr db" and "map_of db key = Some h"
  then have "(key, h) \<in> set db" by (simp add: map_of_SomeD)
  then have "good_hash thr (snd (key, h))"
    using inv unfolding suspicion_inv_def list_all_iff by blast
  then show ?thesis by simp
qed

lemma suspicion_inv_increment:
  assumes inv: "suspicion_inv thr db"
  shows "suspicion_inv thr (snd (script_increment db key thr dur ttl t))"
proof (cases "map_of db key")
  case None
  then show ?thesis
    using inv
    by (auto simp: script_increment_def Let_def HGET_def good_hash_def no_fields_def
        intro!: suspicion_inv_HMSET)
next
  case (Some h)
  then have g: "good_hash thr h" using inv by (rule suspicion_inv_lookup[rotated])
  then obtain s e b where f: "score h = Some s" "expiry h = Some e" "isBlocked h = Some b"
    and s: "1 \<le> s" and b: "b \<noteq> ''true'' \<or> thr \<le> s"
    by (auto simp: good_hash_def split: option.splits)
  show ?thesis
    using inv Some f s b
    by (auto simp: script_increment_def Let_def HGET_def good_hash_def
        intro!: suspicion_inv_HMSET)
qed

lemma set_flush_loop: "set (snd (flush_loop keys now db n)) \<subseteq> set db"
proof (induction keys arbitrary: db n)
  case Nil
  then show ?case by simp
next
  case (Cons key keys)
  have "set (DEL db key) \<subseteq> set db" by (auto simp: DEL_filter)
  then show ?case
    using Cons.IH[of "DEL db key" "n + 1"] Cons.IH[of db n]
    by (auto split: option.splits)
qed

lemma suspicion_inv_flushExpired:
  "suspicion_inv thr db \<Longrightarrow> suspicion_inv thr (snd (flushExpired db t))"
  using set_flush_loop[of "KEYS db" "now_ms t" db 0]
  by (auto simp: suspicion_inv_def list_all_iff flushExpired_def)

lemma suspicion_inv_foldl:
  "suspicion_inv thr db \<Longrightarrow> suspicion_inv thr (foldl (apply_suspicion_op thr) db ops)"
proof (induction ops arbitrary: db)
  case Nil
  then show ?case by simp
next
  case (Cons op ops)
  have "suspicion_inv thr (apply_suspicion_op thr db op)"
    using Cons.prems
    by (cases op) (simp_all add: suspicion_inv_increment suspicion_inv_flushExpired)
  then show ?case using Cons.IH by simp
qed

text \<open>
  Claim C9. Every record of a database reached from the empty one by any sequence of
  \<open>increment\<close> and \<open>flushExpired\<close> calls (one threshold, any keys, durations and
  clock readings) has a score that is at least 0, and if it is marked blocked its
  score has reached the threshold.
\<close>

theorem suspicion_record_invariant:
  assumes "(k, h) \<in> set (run_suspicion thr ops)"
  shows "\<exists>s. score h = Some s \<and> 0 \<le> s \<and> (isBlocked h = Some ''true'' \<longrightarrow> thr \<le> s)"
proof -
  have "suspicion_inv thr []" by (simp add: suspicion_inv_def)
  then have "suspicion_inv thr (run_suspicion thr ops)"
    unfolding run_suspicion_def by (rule suspicion_inv_foldl)
  then have "good_hash thr h"
    using assms by (auto simp: suspicion_inv_def list_all_iff)
  then show ?thesis
    by (auto simp: good_hash_def split: option.splits)
qed

theorem suspicion_record_invariant_witness:
  "(''a'', \<lparr>score = Some 2, expiry = Some 67000, isBlocked = Some ''true''\<rparr>)
     \<in> set (run_suspicion 2 [Increment ''a'' 60000 1000 7, Increment ''b'' 60000 1000 7,
                             Increment ''a'' 60000 1000 7, FlushExpired 8]) \<and>
   (\<exists>s. score \<lparr>score = Some 2, expiry = Some 67000, isBlocked = Some ''true''\<rparr> = Some s \<and> 0 \<le> s \<and>
        (isBlocked \<lparr>score = Some 2, expiry = Some 67000, isBlocked = Some ''true''\<rparr> = Some ''true''
           \<longrightarrow> (2::int) \<le> s))"
proof -
  have m: "(''a'', \<lparr>score = Some 2, expiry = Some 67000, isBlocked = Some ''true''\<rparr>)
     \<in> set (run_suspicion 2 [Increment ''a'' 60000 1000 7, Increment ''b'' 60000 1000 7,
                             Increment ''a'' 60000 1000 7, FlushExpired 8])"
    by (simp add: run_suspicion_def script_increment_def flushExpired_def HGET_def HMSET_def
        DEL_def KEYS_def now_ms_def no_fields_def)
  show ?thesis using m suspicion_record_invariant [OF m] by blast
qed

lemma attackTypes_subset:
  "set (attackTypes (detectMaliciousRequest pats req opts)) \<subseteq> {''XSS'', ''SQL Injection'', ''LFI''}"
  by (auto simp: detectMaliciousRequest_def Let_def)

lemma detect_same_flags:
  "xss o1 = xss o2 \<Longrightarrow> sqlInjection o1 = sqlInjection o2 \<Longrightarrow> lfi o1 = lfi o2 \<Longrightarrow>
   detectMaliciousRequest pats req o1 = detectMaliciousRequest pats req o2"
  by (simp add: detectMaliciousRequest_def Let_def)

text \<open>
  Claim C10. The detector reads only the \<open>xss\<close>, \<open>sqlInjection\<close> and \<open>lfi\<close>
  flags: changing \<open>csrf\<close>, \<open>rfi\<close> and \<open>shellInjection\<close> changes nothing, two option
  records that agree on the three flags read give the same result on every request, and
  the attack types returned are among XSS, SQL Injection and LFI.
\<close>

theorem detector_ignores_other_flags:
  "detectMaliciousRequest pats req (opts\<lparr>csrf := a, rfi := b, shellInjection := c\<rparr>)
     = detectMaliciousRequest pats req opts \<and>
   (xss o1 = xss o2 \<and> sqlInjection o1 = sqlInjection o2 \<and> lfi o1 = lfi o2 \<longrightarrow>
      detectMaliciousRequest pats req o1 = detectMaliciousRequest pats req o2) \<and>
   set (attackTypes (detectMaliciousRequest pats req opts))
     \<subseteq> {''XSS'', ''SQL Injection'', ''LFI''}"
proof (intro conjI impI)
  show "detectMaliciousRequest pats req (opts\<lparr>csrf := a, rfi := b, shellInjection := c\<rparr>)
     = detectMaliciousRequest pats req opts"
    by (rule detect_same_flags) simp_all
  show "detectMaliciousRequest pats req o1 = detectMaliciousRequest pats req o2"
    if "xss o1 = xss o2 \<and> sqlInjection o1 = sqlInjection o2 \<and> lfi o1 = lfi o2"
    using that by (intro detect_same_flags) simp_all
  show "set (attackTypes (detectMaliciousRequest pats req opts))
     \<subseteq> {''XSS'', ''SQL Injection'', ''LFI''}"
    by (rule attackTypes_subset)
qed

theorem detector_ignores_other_flags_witness:
  "detectMaliciousRequest sample_patterns sample_request
      (options (new_ZShield (no_options\<lparr>given_csrf := Some (Some False), given_rfi := Some (Some False),
                                        given_shellInjection := Some (Some False)\<rparr>)))
     = \<lparr>isSuspicious = True, attackTypes = [''SQL Injection'', ''LFI'']\<rparr> \<and>
   detectMaliciousRequest sample_patterns sample_request (options (new_ZShield no_options))
     = \<lparr>isSuspicious = True, attackTypes = [''SQL Injection'', ''LFI'']\<rparr>"
proof -
  have e: "detectMaliciousRequest sample_patterns sample_request (options (new_ZShield no_options))
     = \<lparr>isSuspicious = True, attackTypes = [''SQL Injection'', ''LFI'']\<rparr>"
    by (simp add: detectMaliciousRequest_def sample_patterns_def sample_request_def
        new_ZShield_def no_options_def or_default_def truthy_def spread_def isAttackDetected_def)
  have f: "xss (options (new_ZShield (no_options\<lparr>given_csrf := Some (Some False), given_rfi := Some (Some False),
                                        given_shellInjection := Some (Some False)\<rparr>)))
         = xss (options (new_ZShield no_options)) \<and>
       sqlInjection (options (new_ZShield (no_options\<lparr>given_csrf := Some (Some False), given_rfi := Some (Some False),
                                        given_shellInjection := Some (Some False)\<rparr>)))
         = sqlInjection (options (new_ZShield no_options)) \<and>
       lfi (options (new_ZShield (no_options\<lparr>given_csrf := Some (Some False), given_rfi := Some (Some False),
                                        given_shellInjection := Some (Some False)\<rparr>)))
         = lfi (options (new_ZShield no_options))"
    by (simp add: new_ZShield_def no_options_def)
  show ?thesis
    using e f detector_ignores_other_flags
      [where pats = sample_patterns and req = sample_request and opts = "options (new_ZShield no_options)"
         and ?o1.0 = "options (new_ZShield (no_options\<lparr>given_csrf := Some (Some False), given_rfi := Some (Some False),
                                        given_shellInjection := Some (Some False)\<rparr>))"
         and ?o2.0 = "options (new_ZShield no_options)"]
    by simp
qed

text \<open>
  Claim C8. The gate, in order and with early exit: without a client key it denies at
  once and calls nothing; with a key the store reports blocked it denies, having called
  only \<open>isBlocked\<close>; when the detector finds nothing it allows without an increment;
  when the detector matches it increments once and denies with the matched categories
  exactly when the returned score has reached the threshold, and allows otherwise.
\<close>

theorem middleware_order:
  "((ip req = None \<or> ip req = Some []) \<longrightarrow>
      middleware store pats this req s = ((Forbidden (message (options this)) None, []), s)) \<and>
   (\<forall>k s1. ip req = Some k \<and> k \<noteq> [] \<and> store_isBlocked store s k = (True, s1) \<longrightarrow>
      middleware store pats this req s =
        ((Forbidden (message (options this)) None, [CallIsBlocked k]), s1)) \<and>
   (\<forall>k s1. ip req = Some k \<and> k \<noteq> [] \<and> store_isBlocked store s k = (False, s1) \<and>
           \<not> isSuspicious (detectMaliciousRequest pats req (options this)) \<longrightarrow>
      middleware store pats this req s = ((Next, [CallIsBlocked k, CallDetector]), s1)) \<and>
   (\<forall>k s1 n s2. ip req = Some k \<and> k \<noteq> [] \<and> store_isBlocked store s k = (False, s1) \<and>
           isSuspicious (detectMaliciousRequest pats req (options this)) \<and>
           store_increment store s1 k (shield_blockDurationMs this) = (n, s2) \<longrightarrow>
      middleware store pats this req s =
        ((if shield_suspicionThreshold this \<le> n
          then Forbidden (message (options this))
                 (Some (attackTypes (detectMaliciousRequest pats req (options this))))
          else Next,
          [CallIsBlocked k, CallDetector, CallIncrement k (shield_blockDurationMs this)]), s2))"
  by (auto simp: middleware_def Let_def)

theorem middleware_order_witness:
  "middleware sample_store sample_patterns (new_ZShield (no_options\<lparr>given_suspicionThreshold := Some (Some 2)\<rparr>))
      (sample_request\<lparr>ip := None\<rparr>) 0
     = ((Forbidden (Some ''Access denied due to suspicious activity.'') None, []), 0) \<and>
   middleware sample_store sample_patterns (new_ZShield (no_options\<lparr>given_suspicionThreshold := Some (Some 2)\<rparr>))
      sample_request 2
     = ((Forbidden (Some ''Access denied due to suspicious activity.'') None,
         [CallIsBlocked ''10.0.0.1'']), 2) \<and>
   middleware sample_store sample_patterns (new_ZShield (no_options\<lparr>given_suspicionThreshold := Some (Some 2)\<rparr>))
      (sample_request\<lparr>query := [], body := [], params := []\<rparr>) 1
     = ((Next, [CallIsBlocked ''10.0.0.1'', CallDetector]), 1) \<and>
   middleware sample_store sample_patterns (new_ZShield (no_options\<lparr>given_suspicionThreshold := Some (Some 2)\<rparr>))
      sample_request 0
     = ((Next, [CallIsBlocked ''10.0.0.1'', CallDetector, CallIncrement ''10.0.0.1'' 60000]), 1) \<and>
   middleware sample_store sample_patterns (new_ZShield (no_options\<lparr>given_suspicionThreshold := Some (Some 2)\<rparr>))
      sample_request 1
     = ((Forbidden (Some ''Access denied due to suspicious activity.'')
           (Some [''SQL Injection'', ''LFI'']),
         [CallIsBlocked ''10.0.0.1'', CallDetector, CallIncrement ''10.0.0.1'' 60000]), 2)"
proof -
  let ?z = "new_ZShield (no_options\<lparr>given_suspicionThreshold := Some (Some 2)\<rparr>)"
  have z: "message (options ?z) = Some ''Access denied due to suspicious activity.''"
    "shield_suspicionThreshold ?z = 2" "shield_blockDurationMs ?z = 60000"
    by (simp_all add: new_ZShield_def no_options_def or_default_def)
  have d1: "detectMaliciousRequest sample_patterns sample_request (options ?z)
     = \<lparr>isSuspicious = True, attackTypes = [''SQL Injection'', ''LFI'']\<rparr>"
    by (simp add: detectMaliciousRequest_def sample_patterns_def sample_request_def
        new_ZShield_def no_options_def or_default_def truthy_def spread_def isAttackDetected_def)
  have d0: "detectMaliciousRequest sample_patterns
       (sample_request\<lparr>query := [], body := [], params := []\<rparr>) (options ?z)
     = \<lparr>isSuspicious = False, attackTypes = []\<rparr>"
    by (simp add: detectMaliciousRequest_def sample_patterns_def sample_request_def
        new_ZShield_def no_options_def or_default_def truthy_def spread_def isAttackDetected_def)
  have i: "ip sample_request = Some ''10.0.0.1''" by (simp add: sample_request_def)
  show ?thesis
    using z d1 d0 i
      middleware_order [where store = sample_store and pats = sample_patterns and this = ?z
        and req = "sample_request\<lparr>ip := None\<rparr>" and s = 0]
      middleware_order [where store = sample_store and pats = sample_patterns and this = ?z
        and req = sample_request and s = 2]
      middleware_order [where store = sample_store and pats = sample_patterns and this = ?z
        and req = "sample_request\<lparr>query := [], body := [], params := []\<rparr>" and s = 1]
      middleware_order [where store = sample_store and pats = sample_patterns and this = ?z
        and req = sample_request and s = 0]
      middleware_order [where store = sample_store and pats = sample_patterns and this = ?z
        and req = sample_request and s = 1]
    by (simp add: sample_store_def)
qed

lemmas pg_defs = pg_increment_def pg_increment_body_def pg_get_def pg_decrement_def pg_decrement_body_def
  pg_resetKey_def pg_resetAll_def await_def try_rollback_release_def client_query_def pool_query_def
  pool_connect_def client_release_def next_outcome_def visible_def write_rows_def

lemma steps_cases: "i < (4::nat) \<Longrightarrow> i = 0 \<or> i = 1 \<or> i = 2 \<or> i = 3"
  by arith

lemma replicate_small:
  "replicate (Suc 0) x = [x]" "replicate 2 x = [x, x]" "replicate 3 x = [x, x, x]"
  by (simp_all add: numeral_2_eq_2 numeral_3_eq_3)

lemma pg_increment_rolled_back:
  assumes "txn p = None"
    and "faults p = None # replicate i None @ Some e # None # rest"
    and "i < 4"
  shows "pg_increment this key now p = (Inl e, p\<lparr>faults := rest\<rparr>)"
  using steps_cases[OF assms(3)] assms(1,2)
  by (elim disjE) (simp_all add: pg_defs replicate_small Let_def split: list.splits option.splits)

lemma pg_decrement_rolled_back:
  assumes "txn p = None"
    and "faults p = None # replicate i None @ Some e # None # rest"
    and "i < (if table p key = None then 3 else 4)"
  shows "pg_decrement this key p = (Inl e, p\<lparr>faults := rest\<rparr>)"
proof -
  have "i < 4" using assms(3) by (simp split: if_splits)
  from steps_cases[OF this] assms show ?thesis
    by (elim disjE) (auto simp add: pg_defs replicate_small Let_def split: list.splits option.splits if_splits)
qed

lemma pg_increment_rollback_fails:
  assumes "txn p = None"
    and "faults p = None # replicate i None @ Some e # Some e' # rest"
    and "i < 4"
  shows "fst (pg_increment this key now p) = Inl e' \<and>
         table (snd (pg_increment this key now p)) = table p \<and>
         checked_out (snd (pg_increment this key now p)) = checked_out p"
  using steps_cases[OF assms(3)] assms(1,2)
  by (elim disjE) (simp_all add: pg_defs replicate_small Let_def split: list.splits option.splits)

lemma pg_connect_fails:
  assumes "faults p = Some e # rest"
  shows "pg_increment this key now p = (Inl e, p\<lparr>faults := rest\<rparr>) \<and>
         pg_decrement this key p = (Inl e, p\<lparr>faults := rest\<rparr>)"
  using assms by (simp add: pg_defs)


lemma pg_decrement_rollback_fails:
  assumes "txn p = None"
    and "faults p = None # replicate i None @ Some e # Some e' # rest"
    and "i < (if table p key = None then 3 else 4)"
  shows "fst (pg_decrement this key p) = Inl e' \<and>
         table (snd (pg_decrement this key p)) = table p \<and>
         checked_out (snd (pg_decrement this key p)) = checked_out p"
proof -
  have "i < 4" using assms(3) by (simp split: if_splits)
  from steps_cases[OF this] assms show ?thesis
    by (elim disjE)
      (auto simp add: pg_defs replicate_small Let_def split: list.splits option.splits if_splits)
qed

text \<open>
  The token-bucket operations keep a row within \<open>0 \<le> tokens \<le> capacity\<close> when the
  capacity and the rate are not negative, the clock has not gone back behind the row's
  \<open>last_refill_time\<close> and no call fails.
\<close>

lemma refill_nonneg:
  "l \<le> now \<Longrightarrow> 0 \<le> r \<Longrightarrow> 0 \<le> \<lfloor>real_of_int (now - l) / 1000 * r\<rfloor>"
  by simp

lemma consume_in_bounds:
  fixes cap t a :: int
  assumes "0 \<le> cap" "0 \<le> t" "0 \<le> a"
  shows "0 \<le> (if 0 < min (t + a) cap then min (t + a) cap - 1 else min (t + a) cap) \<and>
         (if 0 < min (t + a) cap then min (t + a) cap - 1 else min (t + a) cap) \<le> cap"
  using assms by (simp add: min_def)

lemma pg_increment_in_bounds:
  assumes cap: "0 \<le> pg_bucketCapacity this" and rate: "0 \<le> tokensPerInterval this"
    and ok: "row_in_bounds this (table p key)"
    and mono: "case table p key of None \<Rightarrow> True | Some row \<Rightarrow> last_refill_time row \<le> now"
    and nf: "faults p = []"
  shows "row_in_bounds this (table (snd (pg_increment this key now p)) key)"
proof (cases "table p key")
  case None
  then show ?thesis using cap nf
    by (simp add: pg_defs row_in_bounds_def Let_def)
next
  case (Some row)
  define a where "a = \<lfloor>real_of_int (now - last_refill_time row) / 1000 * tokensPerInterval this\<rfloor>"
  define u where "u = (if 0 < min (tokens row + a) (pg_bucketCapacity this)
                       then min (tokens row + a) (pg_bucketCapacity this) - 1
                       else min (tokens row + a) (pg_bucketCapacity this))"
  have a: "0 \<le> a"
    unfolding a_def using mono rate Some by (intro refill_nonneg) simp_all
  have t: "0 \<le> tokens row" using ok Some by (simp add: row_in_bounds_def)
  have u: "0 \<le> u \<and> u \<le> pg_bucketCapacity this"
    unfolding u_def using cap t a by (rule consume_in_bounds)
  have "table (snd (pg_increment this key now p)) key
          = Some \<lparr>tokens = u, last_refill_time = now\<rparr>"
    using nf Some by (simp add: pg_defs Let_def u_def a_def)
  then show ?thesis using u by (simp add: row_in_bounds_def)
qed

lemma pg_decrement_in_bounds:
  assumes "0 \<le> pg_bucketCapacity this" and "row_in_bounds this (table p key)" and "faults p = []"
  shows "row_in_bounds this (table (snd (pg_decrement this key p)) key)"
  using assms
  by (cases "table p key") (simp_all add: pg_defs row_in_bounds_def Let_def min_def)

lemma pg_resetKey_in_bounds:
  assumes "0 \<le> pg_bucketCapacity this" and "faults p = []"
  shows "row_in_bounds this (table (snd (pg_resetKey this key now p)) key)"
  using assms by (simp add: pg_defs row_in_bounds_def)

text \<open>
  Claim C1 asks for \<open>0 \<le> remaining \<le> capacity\<close> after every operation of both stores,
  and names the leaky-bucket \<open>increment\<close> on a record whose remaining lies strictly
  between 0 and 1. The code at that input: with 5 hits per 10 seconds, five increments
  at time 0 empty the bucket; one second later half a unit has leaked back, the guard
  \<open>remaining <= 0\<close> lets the call through, and \<open>remaining--\<close> leaves \<open>-1/2\<close>, which is
  stored and returned.
\<close>

theorem leaky_increment_goes_negative:
  "fst (leaky_increment
         (leaky_run five_per_ten_seconds
            [OpIncrement ''k'' 0, OpIncrement ''k'' 0, OpIncrement ''k'' 0, OpIncrement ''k'' 0,
             OpIncrement ''k'' 0]) ''k'' 1000)
     = \<lparr>totalHits = - 1 / 2, resetTime = 11000\<rparr> \<and>
   clients (leaky_run five_per_ten_seconds
     [OpIncrement ''k'' 0, OpIncrement ''k'' 0, OpIncrement ''k'' 0, OpIncrement ''k'' 0,
      OpIncrement ''k'' 0, OpIncrement ''k'' 1000]) ''k''
     = Some \<lparr>remaining = - 1 / 2, lastUpdated = 1000\<rparr>"
  by (simp add: leaky_run_def five_per_ten_seconds_def leaky_init_def leaky_increment_def
      getClient_def updateBucket_def leaky_resetTime_def new_Date_def Let_def)

text \<open>
  Claim C2, the token-bucket half, fails: \<open>PostgresTokenBucketStore.get\<close> reads no
  clock and returns the stored \<open>tokens\<close>. With capacity 10 and 1 token per second, a
  row left with 0 tokens reports 0 at any later time, not 5.
\<close>

theorem pg_get_no_refill_counterexample:
  "info_totalHits (fst (pg_get ten_at_one_per_second ''k''
       (quiet_pool [''k'' \<mapsto> \<lparr>tokens = 0, last_refill_time = 1000000\<rparr>]))) = Some 0 \<and>
   info_totalHits (fst (pg_get ten_at_one_per_second ''k''
       (quiet_pool [''k'' \<mapsto> \<lparr>tokens = 0, last_refill_time = 1000000\<rparr>]))) \<noteq> Some 5"
  by (simp add: info_totalHits_def quiet_pool_def pg_defs)

text \<open>
  Every operation of the leaky-bucket store keeps the configuration and keeps each
  record's remaining at or below the capacity.
\<close>

lemma leaky_apply_config:
  "bucketCapacity (leaky_apply st op) = bucketCapacity st \<and>
   leakRate (leaky_apply st op) = leakRate st"
  by (cases op)
    (simp_all add: leaky_get_def leaky_increment_def getClient_def leaky_decrement_def
      leaky_resetKey_def leaky_resetAll_def Let_def split: option.splits)

lemma leaky_apply_within_capacity:
  assumes "within_capacity st"
  shows "within_capacity (leaky_apply st op)"
proof -
  have c: "remaining c \<le> bucketCapacity st" if "clients st k = Some c" for k c
    using assms that unfolding within_capacity_def
    by (metis option.simps(5))
  show ?thesis
    unfolding within_capacity_def
  proof
    fix k
    show "case clients (leaky_apply st op) k of None \<Rightarrow> True
          | Some c \<Rightarrow> remaining c \<le> bucketCapacity (leaky_apply st op)"
      using c[of k]
      by (cases op)
        (auto simp add: leaky_get_def leaky_increment_def getClient_def leaky_decrement_def
          leaky_resetKey_def leaky_resetAll_def updateBucket_def Let_def
          split: option.splits if_splits)
  qed
qed

lemma leaky_run_invariant:
  "within_capacity st \<Longrightarrow>
   within_capacity (leaky_run st ops) \<and>
   bucketCapacity (leaky_run st ops) = bucketCapacity st \<and>
   leakRate (leaky_run st ops) = leakRate st"
  unfolding leaky_run_def
proof (induction ops arbitrary: st)
  case Nil
  then show ?case by simp
next
  case (Cons op ops)
  have "within_capacity (leaky_apply st op)"
    using Cons.prems by (rule leaky_apply_within_capacity)
  from Cons.IH[OF this] show ?case
    by (simp add: leaky_apply_config)
qed

lemma leaky_init_leakRate: "valid_Options opts \<Longrightarrow> 0 \<le> leakRate (leaky_init opts)"
  by (auto simp: valid_Options_def leaky_init_def Let_def split: option.splits)

lemma leaky_init_within_capacity: "within_capacity (leaky_init opts)"
  by (simp add: within_capacity_def leaky_init_def Let_def)

lemma leaky_get_not_below:
  assumes "clients st key = Some c" "lastUpdated c \<le> now" "0 \<le> leakRate st"
    "remaining c \<le> bucketCapacity st"
  shows "remaining c \<le> min (remaining c + real_of_int (now - lastUpdated c) * leakRate st)
                             (bucketCapacity st)"
  using assms by (simp add: mult_nonneg_nonneg)

lemma leaky_get_reachable_not_below:
  assumes v: "valid_Options opts"
    and st: "st = leaky_run (leaky_init opts) ops"
    and c: "clients st key = Some c" and t: "lastUpdated c \<le> now"
  shows "remaining c \<le> min (remaining c + real_of_int (now - lastUpdated c) * leakRate st)
                             (bucketCapacity st)"
proof -
  have inv: "within_capacity st \<and> bucketCapacity st = bucketCapacity (leaky_init opts) \<and>
        leakRate st = leakRate (leaky_init opts)"
    unfolding st using leaky_init_within_capacity by (rule leaky_run_invariant)
  then have r: "0 \<le> leakRate st" using leaky_init_leakRate[OF v] by simp
  have "remaining c \<le> bucketCapacity st"
    using inv c unfolding within_capacity_def by (metis option.simps(5))
  with c t r show ?thesis by (rule leaky_get_not_below)
qed

text \<open>
  Claim C2 as amended. On an existing record the leaky-bucket \<open>get\<close> reports and stores
  \<open>min (remaining + elapsed * leakRate) capacity\<close> with \<open>lastUpdated = now\<close>. That value
  is not below the stored remaining (no unit is taken) when the clock has not gone back
  behind the record's \<open>lastUpdated\<close>, the leak rate is not negative and the stored
  remaining is not above the capacity; the last two hold in every store reached by any
  sequence of operations from an \<open>init\<close> whose \<open>max\<close> is not negative and whose
  \<open>windowMs\<close> is positive. The token-bucket \<open>get\<close> reads no clock, reports the stored
  token count as it is and changes nothing.
\<close>

theorem get_snapshot:
  "(clients st key = Some c \<longrightarrow>
      map_option totalHits (fst (leaky_get st key now))
        = Some (min (remaining c + real_of_int (now - lastUpdated c) * leakRate st)
                    (bucketCapacity st)) \<and>
      clients (snd (leaky_get st key now)) key
        = Some \<lparr>remaining = min (remaining c + real_of_int (now - lastUpdated c) * leakRate st)
                                (bucketCapacity st),
                lastUpdated = now\<rparr> \<and>
      (lastUpdated c \<le> now \<and> 0 \<le> leakRate st \<and> remaining c \<le> bucketCapacity st \<longrightarrow>
         remaining c \<le> min (remaining c + real_of_int (now - lastUpdated c) * leakRate st)
                             (bucketCapacity st)) \<and>
      (valid_Options opts \<and> st = leaky_run (leaky_init opts) ops \<and> lastUpdated c \<le> now \<longrightarrow>
         remaining c \<le> min (remaining c + real_of_int (now - lastUpdated c) * leakRate st)
                             (bucketCapacity st))) \<and>
   (table p key = Some row \<and> faults p = [] \<longrightarrow>
      info_totalHits (fst (pg_get this key p)) = Some (real_of_int (tokens row)) \<and>
      snd (pg_get this key p) = p)"
proof (intro conjI impI)
  assume c: "clients st key = Some c"
  show "map_option totalHits (fst (leaky_get st key now))
        = Some (min (remaining c + real_of_int (now - lastUpdated c) * leakRate st)
                    (bucketCapacity st))"
    and "clients (snd (leaky_get st key now)) key
        = Some \<lparr>remaining = min (remaining c + real_of_int (now - lastUpdated c) * leakRate st)
                                (bucketCapacity st),
                lastUpdated = now\<rparr>"
    using c by (simp_all add: leaky_get_def updateBucket_def Let_def)
  show "remaining c \<le> min (remaining c + real_of_int (now - lastUpdated c) * leakRate st)
                             (bucketCapacity st)"
    if "lastUpdated c \<le> now \<and> 0 \<le> leakRate st \<and> remaining c \<le> bucketCapacity st"
    using c that by (intro leaky_get_not_below) simp_all
  show "remaining c \<le> min (remaining c + real_of_int (now - lastUpdated c) * leakRate st)
                             (bucketCapacity st)"
    if "valid_Options opts \<and> st = leaky_run (leaky_init opts) ops \<and> lastUpdated c \<le> now"
    using c that by (intro leaky_get_reachable_not_below[of opts st ops key]) simp_all
next
  assume "table p key = Some row \<and> faults p = []"
  then show "info_totalHits (fst (pg_get this key p)) = Some (real_of_int (tokens row))"
    and "snd (pg_get this key p) = p"
    by (simp_all add: info_totalHits_def pg_defs)
qed

theorem get_snapshot_witness:
  "map_option totalHits (fst (leaky_get
       (leaky_run (leaky_init \<lparr>max' = Some 10, windowMs = Some 10000\<rparr>)
          [OpIncrement ''k'' 1000000, OpIncrement ''k'' 1000000, OpIncrement ''k'' 1000000,
           OpIncrement ''k'' 1000000, OpIncrement ''k'' 1000000, OpIncrement ''k'' 1000000,
           OpIncrement ''k'' 1000000, OpIncrement ''k'' 1000000, OpIncrement ''k'' 1000000,
           OpIncrement ''k'' 1000000])
       ''k'' 1005000)) = Some 5 \<and>
   info_totalHits (fst (pg_get ten_at_one_per_second ''k''
       (quiet_pool [''k'' \<mapsto> \<lparr>tokens = 0, last_refill_time = 1000000\<rparr>]))) = Some 0"
proof -
  let ?ops = "[OpIncrement ''k'' 1000000, OpIncrement ''k'' 1000000, OpIncrement ''k'' 1000000,
           OpIncrement ''k'' 1000000, OpIncrement ''k'' 1000000, OpIncrement ''k'' 1000000,
           OpIncrement ''k'' 1000000, OpIncrement ''k'' 1000000, OpIncrement ''k'' 1000000,
           OpIncrement ''k'' 1000000]"
  let ?opts = "\<lparr>max' = Some 10, windowMs = Some 10000\<rparr>"
  let ?c = "\<lparr>remaining = 0, lastUpdated = 1000000\<rparr>"
  let ?p = "quiet_pool [''k'' \<mapsto> \<lparr>tokens = 0, last_refill_time = 1000000\<rparr>]"
  let ?row = "\<lparr>tokens = 0, last_refill_time = 1000000\<rparr>"
  define st where "st = leaky_run (leaky_init ?opts) ?ops"
  have run: "st = (leaky_init ?opts)\<lparr>clients := [''k'' \<mapsto> ?c]\<rparr>"
    unfolding st_def
    by (simp add: leaky_run_def leaky_init_def leaky_increment_def getClient_def
        updateBucket_def Let_def)
  have c: "clients st ''k'' = Some ?c"
    by (simp add: run)
  have lr: "leakRate st = 1 / 1000" and cap: "bucketCapacity st = 10"
    by (simp_all add: run leaky_init_def)
  have v: "valid_Options ?opts \<and> st = leaky_run (leaky_init ?opts) ?ops \<and>
           lastUpdated ?c \<le> 1005000"
    by (simp add: valid_Options_def st_def)
  have row: "table ?p ''k'' = Some ?row \<and> faults ?p = []"
    by (simp add: quiet_pool_def)
  note g = get_snapshot
      [where st = st and opts = ?opts and ops = ?ops and key = "''k''" and c = ?c
         and now = 1005000 and p = ?p and row = ?row and this = ten_at_one_per_second]
  from g c v have
    "map_option totalHits (fst (leaky_get st ''k'' 1005000))
       = Some (min (remaining ?c + real_of_int (1005000 - lastUpdated ?c) * leakRate st)
                   (bucketCapacity st)) \<and>
     remaining ?c \<le> min (remaining ?c + real_of_int (1005000 - lastUpdated ?c) * leakRate st)
                          (bucketCapacity st)"
    by blast
  then have leaky: "map_option totalHits (fst (leaky_get st ''k'' 1005000)) = Some 5"
    by (simp add: lr cap)
  from g row have "info_totalHits (fst (pg_get ten_at_one_per_second ''k'' ?p))
      = Some (real_of_int (tokens ?row))"
    by blast
  then have pg: "info_totalHits (fst (pg_get ten_at_one_per_second ''k'' ?p)) = Some 0"
    by simp
  show ?thesis
    using leaky pg unfolding st_def by simp
qed

text \<open>
  Claim C4, the leaky-bucket half, fails: \<open>MemoryLeakyBucketStore.resetKey\<close> deletes the
  record, so the \<open>get\<close> that follows returns undefined, not \<open>remaining = capacity\<close>.
\<close>

theorem leaky_resetKey_get_absent_counterexample:
  "fst (leaky_get
         (leaky_resetKey
            (ten_per_ten_seconds\<lparr>clients := [''k'' \<mapsto> \<lparr>remaining = 3, lastUpdated = 1000000\<rparr>]\<rparr>)
            ''k'')
         ''k'' 1000000) = None"
  by (simp add: leaky_get_def leaky_resetKey_def)

text \<open>
  Claim C4 as amended. In the token-bucket store \<open>resetKey\<close> writes the row
  \<open>(capacity, now)\<close> and the \<open>get\<close> that follows reports \<open>capacity\<close> (no call
  failing). In the leaky-bucket store \<open>resetKey\<close> deletes the record: the \<open>get\<close> that
  follows reports nothing and creates nothing, and the next \<open>increment\<close> starts again
  from full capacity.
\<close>

theorem resetKey_then_get:
  "(faults p = [] \<longrightarrow>
      fst (pg_resetKey this key now p) = Inr () \<and>
      table (snd (pg_resetKey this key now p)) key
        = Some \<lparr>tokens = pg_bucketCapacity this, last_refill_time = now\<rparr> \<and>
      info_totalHits (fst (pg_get this key (snd (pg_resetKey this key now p))))
        = Some (real_of_int (pg_bucketCapacity this))) \<and>
   clients (leaky_resetKey st key) key = None \<and>
   fst (leaky_get (leaky_resetKey st key) key now) = None \<and>
   clients (snd (leaky_get (leaky_resetKey st key) key now)) key = None \<and>
   (0 < bucketCapacity st \<longrightarrow>
      totalHits (fst (leaky_increment (leaky_resetKey st key) key now)) = bucketCapacity st - 1)"
  by (auto simp: info_totalHits_def pg_defs leaky_get_def leaky_resetKey_def leaky_increment_def
      getClient_def updateBucket_def Let_def)

theorem resetKey_then_get_witness:
  "info_totalHits (fst (pg_get ten_at_one_per_second ''k''
       (snd (pg_resetKey ten_at_one_per_second ''k'' 1000000
          (quiet_pool [''k'' \<mapsto> \<lparr>tokens = 0, last_refill_time = 7\<rparr>]))))) = Some 10 \<and>
   totalHits (fst (leaky_increment (leaky_resetKey
       (ten_per_ten_seconds\<lparr>clients := [''k'' \<mapsto> \<lparr>remaining = 3, lastUpdated = 1000000\<rparr>]\<rparr>)
       ''k'') ''k'' 1000000)) = 9"
  using resetKey_then_get
    [where p = "quiet_pool [''k'' \<mapsto> \<lparr>tokens = 0, last_refill_time = 7\<rparr>]"
       and this = ten_at_one_per_second and key = "''k''" and now = 1000000
       and st = "ten_per_ten_seconds\<lparr>clients := [''k'' \<mapsto> \<lparr>remaining = 3, lastUpdated = 1000000\<rparr>]\<rparr>"]
  by (simp add: quiet_pool_def ten_at_one_per_second_def pg_fields_def ten_per_ten_seconds_def
      leaky_init_def)

text \<open>
  Claim C5, the token-bucket half, fails: \<open>increment\<close> adds \<open>refillInterval\<close> (the time
  of one token, \<open>1000 / refillRate\<close>) to the \<open>last_refill_time\<close> it read before writing. With
  capacity 10, 1 token per second and a row last refilled at 0, an increment at 5000
  returns \<open>resetTime = 1000\<close> while the row now holds \<open>last_refill_time = 5000\<close>; the
  claimed value is 5010 with the rate per second and 15000 with the rate per
  millisecond.
\<close>

theorem pg_resetTime_counterexample:
  "info_resetTime (fst (pg_increment ten_at_one_per_second ''k'' 5000
       (quiet_pool [''k'' \<mapsto> \<lparr>tokens = 0, last_refill_time = 0\<rparr>]))) = Some 1000 \<and>
   map_option last_refill_time (table (snd (pg_increment ten_at_one_per_second ''k'' 5000
       (quiet_pool [''k'' \<mapsto> \<lparr>tokens = 0, last_refill_time = 0\<rparr>]))) ''k'') = Some 5000 \<and>
   new_Date (5000 + real_of_int (pg_bucketCapacity ten_at_one_per_second)
                      / tokensPerInterval ten_at_one_per_second) = 5010 \<and>
   new_Date (5000 + real_of_int (pg_bucketCapacity ten_at_one_per_second)
                      / (tokensPerInterval ten_at_one_per_second / 1000)) = 15000"
  by (simp add: info_resetTime_def quiet_pool_def pg_defs pg_resetTime_def new_Date_def
      ten_at_one_per_second_def pg_fields_def Let_def)

lemma leaky_increment_resetTime:
  "resetTime (fst (leaky_increment st key now))
     = new_Date (real_of_int now + bucketCapacity st / leakRate st) \<and>
   map_option lastUpdated (clients (snd (leaky_increment st key now)) key) = Some now"
  by (simp add: leaky_increment_def getClient_def updateBucket_def leaky_resetTime_def Let_def
      split: option.splits)

lemma pg_increment_resetTime:
  "faults p = [] \<Longrightarrow>
   info_resetTime (fst (pg_increment this key now p))
     = Some (new_Date (real_of_int (case table p key of None \<Rightarrow> now
                                     | Some row \<Rightarrow> last_refill_time row)
                       + refillInterval this)) \<and>
   map_option last_refill_time (table (snd (pg_increment this key now p)) key) = Some now"
  by (simp add: info_resetTime_def pg_defs pg_resetTime_def Let_def split: option.splits)

text \<open>
  Claim C5 as amended. In the leaky-bucket store the \<open>resetTime\<close> of \<open>get\<close> and
  \<open>increment\<close> is the record's \<open>lastUpdated\<close> after the call (which is \<open>now\<close>) plus
  \<open>bucketCapacity / leakRate\<close>, as a date. In the token-bucket store the \<open>resetTime\<close> of
  \<open>increment\<close> is the \<open>last_refill_time\<close> read before the write (\<open>now\<close> for a new key)
  plus \<open>refillInterval\<close>, that of \<open>get\<close> is the stored \<open>last_refill_time\<close> plus
  \<open>refillInterval\<close>, and \<open>refillInterval = 1000 / refillRate\<close>.
\<close>

theorem resetTime_formula:
  "(clients st key = Some c \<longrightarrow>
      map_option resetTime (fst (leaky_get st key now))
        = Some (new_Date (real_of_int now + bucketCapacity st / leakRate st)) \<and>
      map_option lastUpdated (clients (snd (leaky_get st key now)) key) = Some now) \<and>
   resetTime (fst (leaky_increment st key now))
     = new_Date (real_of_int now + bucketCapacity st / leakRate st) \<and>
   map_option lastUpdated (clients (snd (leaky_increment st key now)) key) = Some now \<and>
   (faults p = [] \<longrightarrow>
      info_resetTime (fst (pg_increment this key now p))
        = Some (new_Date (real_of_int (case table p key of None \<Rightarrow> now
                                        | Some row \<Rightarrow> last_refill_time row)
                          + refillInterval this)) \<and>
      map_option last_refill_time (table (snd (pg_increment this key now p)) key) = Some now) \<and>
   (faults p = [] \<and> table p key = Some row \<longrightarrow>
      map_option resetTime (case fst (pg_get this key p) of Inr r \<Rightarrow> r | Inl _ \<Rightarrow> None)
        = Some (new_Date (real_of_int (last_refill_time row) + refillInterval this))) \<and>
   (refillRate opts = Some rate \<longrightarrow> refillInterval (pg_fields opts) = 1000 / rate)"
proof (intro conjI impI)
  show "resetTime (fst (leaky_increment st key now))
     = new_Date (real_of_int now + bucketCapacity st / leakRate st)"
    and "map_option lastUpdated (clients (snd (leaky_increment st key now)) key) = Some now"
    using leaky_increment_resetTime[of st key now] by simp_all
  show "info_resetTime (fst (pg_increment this key now p))
        = Some (new_Date (real_of_int (case table p key of None \<Rightarrow> now
                                        | Some row \<Rightarrow> last_refill_time row)
                          + refillInterval this))"
    and "map_option last_refill_time (table (snd (pg_increment this key now p)) key) = Some now"
    if "faults p = []"
    using pg_increment_resetTime[OF that, of this key now] by simp_all
qed (simp_all add: leaky_get_def updateBucket_def leaky_resetTime_def Let_def pg_defs
      pg_resetTime_def pg_fields_def)

theorem resetTime_formula_witness:
  "map_option resetTime (fst (leaky_get
       (ten_per_ten_seconds\<lparr>clients := [''k'' \<mapsto> \<lparr>remaining = 0, lastUpdated = 1000000\<rparr>]\<rparr>)
       ''k'' 1005000)) = Some 1015000 \<and>
   info_resetTime (fst (pg_increment ten_at_one_per_second ''k'' 5000
       (quiet_pool [''k'' \<mapsto> \<lparr>tokens = 0, last_refill_time = 0\<rparr>]))) = Some 1000 \<and>
   map_option resetTime
     (case fst (pg_get ten_at_one_per_second ''k''
                  (quiet_pool [''k'' \<mapsto> \<lparr>tokens = 0, last_refill_time = 0\<rparr>]))
      of Inr r \<Rightarrow> r | Inl _ \<Rightarrow> None) = Some 1000 \<and>
   refillInterval (pg_fields \<lparr>refillRate = Some 4, maxTokens = None\<rparr>) = 250"
  using resetTime_formula
    [where st = "ten_per_ten_seconds\<lparr>clients := [''k'' \<mapsto> \<lparr>remaining = 0, lastUpdated = 1000000\<rparr>]\<rparr>"
       and key = "''k''" and c = "\<lparr>remaining = 0, lastUpdated = 1000000\<rparr>" and now = 1005000
       and opts = "\<lparr>refillRate = Some 4, maxTokens = None\<rparr>" and rate = 4]
    resetTime_formula
    [where p = "quiet_pool [''k'' \<mapsto> \<lparr>tokens = 0, last_refill_time = 0\<rparr>]"
       and key = "''k''" and now = 5000 and this = ten_at_one_per_second
       and row = "\<lparr>tokens = 0, last_refill_time = 0\<rparr>"]
  by (simp add: ten_per_ten_seconds_def leaky_init_def quiet_pool_def new_Date_def
      ten_at_one_per_second_def pg_fields_def)

text \<open>
  Claim C7 fails when the \<open>ROLLBACK\<close> in the catch block fails too: its error is the
  one thrown, not the error of the step that failed.
\<close>

theorem rollback_failure_masks_error_counterexample:
  "fst (pg_increment ten_at_one_per_second ''k'' 5000
         ((quiet_pool [''k'' \<mapsto> \<lparr>tokens = 3, last_refill_time = 0\<rparr>])
            \<lparr>faults := [None, None, Some (PgError ''connection terminated''),
                        Some (PgError ''client is not queryable'')]\<rparr>))
     = Inl (PgError ''client is not queryable'') \<and>
   fst (pg_increment ten_at_one_per_second ''k'' 5000
         ((quiet_pool [''k'' \<mapsto> \<lparr>tokens = 3, last_refill_time = 0\<rparr>])
            \<lparr>faults := [None, None, Some (PgError ''connection terminated''),
                        Some (PgError ''client is not queryable'')]\<rparr>))
     \<noteq> Inl (PgError ''connection terminated'')"
  by (simp add: quiet_pool_def pg_defs Let_def)

text \<open>
  Claim C7 as amended, for \<open>increment\<close> and \<open>decrement\<close> started with no transaction
  open. If \<open>pool.connect\<close> fails, its error is raised and nothing changes. If one of
  the steps \<open>BEGIN\<close>, \<open>SELECT\<close>, the write or \<open>COMMIT\<close> fails with \<open>e\<close> and the
  \<open>ROLLBACK\<close> succeeds, the call raises \<open>e\<close> itself and leaves the pool as it was:
  the committed table unchanged, no transaction open, the client released. If the
  \<open>ROLLBACK\<close> fails as well, the call still ends in an error, the committed table is
  still unchanged and the client is still released.
\<close>

theorem pg_failure_rolls_back:
  assumes "txn p = None"
  shows
  "(faults p = Some e # rest \<longrightarrow>
      pg_increment this key now p = (Inl e, p\<lparr>faults := rest\<rparr>) \<and>
      pg_decrement this key p = (Inl e, p\<lparr>faults := rest\<rparr>)) \<and>
   (faults p = None # replicate i None @ Some e # None # rest \<and> i < 4 \<longrightarrow>
      pg_increment this key now p = (Inl e, p\<lparr>faults := rest\<rparr>)) \<and>
   (faults p = None # replicate i None @ Some e # None # rest \<and>
    i < (if table p key = None then 3 else 4) \<longrightarrow>
      pg_decrement this key p = (Inl e, p\<lparr>faults := rest\<rparr>)) \<and>
   (faults p = None # replicate i None @ Some e # Some e' # rest \<and> i < 4 \<longrightarrow>
      isl (fst (pg_increment this key now p)) \<and>
      table (snd (pg_increment this key now p)) = table p \<and>
      checked_out (snd (pg_increment this key now p)) = checked_out p) \<and>
   (faults p = None # replicate i None @ Some e # Some e' # rest \<and>
    i < (if table p key = None then 3 else 4) \<longrightarrow>
      isl (fst (pg_decrement this key p)) \<and>
      table (snd (pg_decrement this key p)) = table p \<and>
      checked_out (snd (pg_decrement this key p)) = checked_out p)"
  using assms pg_connect_fails[of p e rest this key now]
    pg_increment_rolled_back[of p i e rest this key now]
    pg_decrement_rolled_back[of p i e rest key this]
    pg_increment_rollback_fails[of p i e e' rest this key now]
    pg_decrement_rollback_fails[of p i e e' rest key this]
  by (simp del: replicate.simps)

theorem pg_failure_rolls_back_witness:
  "pg_increment ten_at_one_per_second ''k'' 5000
      ((quiet_pool [''k'' \<mapsto> \<lparr>tokens = 3, last_refill_time = 0\<rparr>])
         \<lparr>faults := [None, None, None, Some (PgError ''deadlock detected''), None]\<rparr>)
     = (Inl (PgError ''deadlock detected''),
        quiet_pool [''k'' \<mapsto> \<lparr>tokens = 3, last_refill_time = 0\<rparr>]) \<and>
   pg_decrement ten_at_one_per_second ''k''
      ((quiet_pool [''k'' \<mapsto> \<lparr>tokens = 3, last_refill_time = 0\<rparr>])
         \<lparr>faults := [None, None, None, Some (PgError ''deadlock detected''), None]\<rparr>)
     = (Inl (PgError ''deadlock detected''),
        quiet_pool [''k'' \<mapsto> \<lparr>tokens = 3, last_refill_time = 0\<rparr>]) \<and>
   isl (fst (pg_increment ten_at_one_per_second ''k'' 5000
      ((quiet_pool [''k'' \<mapsto> \<lparr>tokens = 3, last_refill_time = 0\<rparr>])
         \<lparr>faults := [None, None, Some (PgError ''connection terminated''),
                     Some (PgError ''client is not queryable'')]\<rparr>))) \<and>
   table (snd (pg_increment ten_at_one_per_second ''k'' 5000
      ((quiet_pool [''k'' \<mapsto> \<lparr>tokens = 3, last_refill_time = 0\<rparr>])
         \<lparr>faults := [None, None, Some (PgError ''connection terminated''),
                     Some (PgError ''client is not queryable'')]\<rparr>)))
     = [''k'' \<mapsto> \<lparr>tokens = 3, last_refill_time = 0\<rparr>]"
proof -
  let ?q = "quiet_pool [''k'' \<mapsto> \<lparr>tokens = 3, last_refill_time = 0\<rparr>]"
  have r2: "replicate 2 (None :: pg_error option) = [None, None]"
    and r1: "replicate 1 (None :: pg_error option) = [None]"
    by (simp_all add: numeral_2_eq_2)
  show ?thesis
    using pg_failure_rolls_back
        [where p = "?q\<lparr>faults := [None, None, None, Some (PgError ''deadlock detected''), None]\<rparr>"
           and i = 2 and e = "PgError ''deadlock detected''" and rest = "[]"
           and this = ten_at_one_per_second and key = "''k''" and now = 5000]
      pg_failure_rolls_back
        [where p = "?q\<lparr>faults := [None, None, Some (PgError ''connection terminated''),
                     Some (PgError ''client is not queryable'')]\<rparr>"
           and i = 1 and e = "PgError ''connection terminated''"
           and e' = "PgError ''client is not queryable''" and rest = "[]"
           and this = ten_at_one_per_second and key = "''k''" and now = 5000]
    by (simp add: quiet_pool_def r2)
qed

end
